theory Spec2Isabelle
  imports Complex_Main
begin

section \<open>Outcomes of a Python call\<close>

text \<open>
  The program is \<^verbatim>\<open>src/models/bert_emb.py\<close>: a BERT encoder forward pass written
  with numpy. A call either returns a value or raises; the exceptions that the numpy
  and dict operations of the file can raise are the constructors of \<open>py_error\<close>, and a
  call's outcome is a value of \<open>py_error + 'a\<close> (\<open>Inl\<close> the exception).

  numpy's floating-point numbers are modelled by the real numbers: rounding and
  overflow are not modelled. numpy does not raise when it divides by zero: it warns and
  stores \<open>nan\<close> or an infinity. The divisor can be zero at three places of the file:
  the mean and the variance of a row with no entry (\<open>layer_norm\<close>), the scaling of
  the scores of a head with no column (\<open>attention\<close>), and the division by the norm in
  \<^verbatim>\<open>mean_pooling_and_normalization\<close>. At the first two the result of the function
  has no entry when it is called as the file calls it, and the model divides as HOL
  does (\<open>x / 0 = 0\<close>); at the last the quotient is an \<open>npfloat\<close>, which keeps IEEE's
  \<open>nan\<close> and the infinities apart from the finite values.
\<close>

datatype py_error = KeyError string | IndexError | ValueError | ZeroDivisionError

definition and_then :: "py_error + 'a \<Rightarrow> ('a \<Rightarrow> py_error + 'b) \<Rightarrow> py_error + 'b" where
  "and_then r f = (case r of Inl e \<Rightarrow> Inl e | Inr v \<Rightarrow> f v)"

text \<open>Running a list of calls in order: the first exception ends the run.\<close>

fun collect :: "(py_error + 'a) list \<Rightarrow> py_error + 'a list" where
  "collect [] = Inr []"
| "collect (r # rs) =
     (case r of Inl e \<Rightarrow> Inl e
      | Inr v \<Rightarrow> (case collect rs of Inl e \<Rightarrow> Inl e | Inr vs \<Rightarrow> Inr (v # vs)))"

datatype npfloat = Fin real | PosInf | NegInf | NaN

definition np_divide :: "real \<Rightarrow> real \<Rightarrow> npfloat" where
  "np_divide v d =
     (if d \<noteq> 0 then Fin (v / d)
      else if v = 0 then NaN
      else if 0 < v then PosInf else NegInf)"

section \<open>Two-dimensional arrays\<close>

text \<open>
  A 2-D \<^verbatim>\<open>ndarray\<close> of shape \<open>(n, c)\<close> is its column count \<open>c\<close> and the list of
  its \<open>n\<close> rows. The column count is kept beside the rows because numpy keeps it for an
  array with no rows, and checks it. A 1-D array is a \<open>real list\<close>.
\<close>

datatype ndarray = Arr (ncols: nat) (rows: "real list list")

definition nrows :: "ndarray \<Rightarrow> nat" where
  "nrows a = length (rows a)"

definition wf_arr :: "ndarray \<Rightarrow> bool" where
  "wf_arr a = (\<forall>r \<in> set (rows a). length r = ncols a)"

definition col :: "ndarray \<Rightarrow> nat \<Rightarrow> real list" where
  "col a j = map (\<lambda>r. r ! j) (rows a)"

text \<open>\<^verbatim>\<open>a.T\<close>\<close>

definition transpose_arr :: "ndarray \<Rightarrow> ndarray" where
  "transpose_arr a = Arr (nrows a) (map (col a) [0..<ncols a])"

text \<open>A 1-D array where numpy broadcasts it against a 2-D one: shape \<open>(1, k)\<close>.\<close>

definition row_vec :: "real list \<Rightarrow> ndarray" where
  "row_vec v = Arr (length v) [v]"

text \<open>An elementwise function of one array (\<^verbatim>\<open>np.exp\<close>, \<^verbatim>\<open>np.sqrt\<close>,
  an operation with a scalar).\<close>

definition map_arr :: "(real \<Rightarrow> real) \<Rightarrow> ndarray \<Rightarrow> ndarray" where
  "map_arr f a = Arr (ncols a) (map (map f) (rows a))"

subsection \<open>Broadcasting\<close>

text \<open>
  numpy's rule for a binary elementwise operation: two extents are compatible when they
  are equal or one of them is 1, and the extent 1 is stretched; anything else raises
  \<^verbatim>\<open>ValueError\<close>.
\<close>

definition bc_dim :: "nat \<Rightarrow> nat \<Rightarrow> py_error + nat" where
  "bc_dim m n =
     (if m = n then Inr m
      else if m = 1 then Inr n
      else if n = 1 then Inr m
      else Inl ValueError)"

definition stretch :: "nat \<Rightarrow> 'a list \<Rightarrow> 'a list" where
  "stretch n xs = (if length xs = n then xs else replicate n (hd xs))"

definition broadcast2 :: "(real \<Rightarrow> real \<Rightarrow> real) \<Rightarrow> ndarray \<Rightarrow> ndarray \<Rightarrow> py_error + ndarray" where
  "broadcast2 f a b =
     and_then (bc_dim (nrows a) (nrows b)) (\<lambda>n.
     and_then (bc_dim (ncols a) (ncols b)) (\<lambda>c.
       Inr (Arr c (map2 (\<lambda>ra rb. map2 f (stretch c ra) (stretch c rb))
                        (stretch n (rows a)) (stretch n (rows b))))))"

subsection \<open>Products, stacking, splitting, indexing\<close>

text \<open>\<^verbatim>\<open>a @ b\<close> for 2-D arrays: the inner extents must agree.\<close>

definition dot :: "real list \<Rightarrow> real list \<Rightarrow> real" where
  "dot u v = sum_list (map2 (*) u v)"

definition matmul :: "ndarray \<Rightarrow> ndarray \<Rightarrow> py_error + ndarray" where
  "matmul a b =
     (if ncols a \<noteq> nrows b then Inl ValueError
      else Inr (Arr (ncols b)
             (map (\<lambda>r. map (\<lambda>j. dot r (col b j)) [0..<ncols b]) (rows a))))"

text \<open>\<^verbatim>\<open>np.hstack\<close> of 2-D arrays joins them along the last axis; the row counts must
  agree, and an empty sequence is refused. Of 1-D arrays it is their concatenation.\<close>

definition hstack :: "ndarray list \<Rightarrow> py_error + ndarray" where
  "hstack as =
     (case as of
        [] \<Rightarrow> Inl ValueError
      | a # rest \<Rightarrow>
          if \<forall>b \<in> set rest. nrows b = nrows a
          then Inr (Arr (sum_list (map ncols as))
                 (map (\<lambda>i. concat (map (\<lambda>b. rows b ! i) as)) [0..<nrows a]))
          else Inl ValueError)"

definition hstack1 :: "real list list \<Rightarrow> real list" where
  "hstack1 vs = concat vs"

text \<open>
  \<^verbatim>\<open>np.split(x, n, axis=-1)\<close> with an integer \<open>n\<close>: numpy computes
  \<^verbatim>\<open>N % n\<close> first (Python raises \<^verbatim>\<open>ZeroDivisionError\<close> for \<open>n = 0\<close>) and raises
  \<^verbatim>\<open>ValueError\<close> when the remainder is not zero; otherwise the result is the list of
  the \<open>n\<close> chunks of \<open>N div n\<close> columns each.
\<close>

definition chunk :: "nat \<Rightarrow> nat \<Rightarrow> 'a list \<Rightarrow> 'a list" where
  "chunk w j r = take w (drop (j * w) r)"

definition np_split :: "ndarray \<Rightarrow> nat \<Rightarrow> py_error + ndarray list" where
  "np_split x n =
     (if n = 0 then Inl ZeroDivisionError
      else if ncols x mod n \<noteq> 0 then Inl ValueError
      else Inr (map (\<lambda>j. Arr (ncols x div n) (map (chunk (ncols x div n) j) (rows x))) [0..<n]))"

text \<open>
  \<^verbatim>\<open>table[ids]\<close> with a list of Python integers. numpy first makes an index array
  of the list: of type \<open>int64\<close> when every id fits it; of type \<open>uint64\<close> when every id
  is in \<open>[0, 2^64)\<close> and one of them does not fit \<open>int64\<close>, and this array is cast to
  the signed index type, which sends an id \<open>i \<ge> 2^63\<close> to \<open>i - 2^64\<close>; a list that fits
  neither becomes an array of floats or of objects, which is refused as an index with
  \<^verbatim>\<open>IndexError\<close>. Then an index \<open>i\<close> with \<open>-n \<le> i < n\<close> selects a row (a negative
  one counts from the end), and any other raises \<^verbatim>\<open>IndexError\<close>.

  An array has fewer than \<open>2^63\<close> rows, so that ids within \<open>[-n, n)\<close> fit \<open>int64\<close> and
  are taken as they are: \<open>take_rows\<close> tests this case first.
\<close>

definition norm_index :: "nat \<Rightarrow> int \<Rightarrow> nat" where
  "norm_index n i = nat (if i < 0 then i + int n else i)"

definition in_bounds :: "nat \<Rightarrow> int \<Rightarrow> bool" where
  "in_bounds n i = (- int n \<le> i \<and> i < int n)"

definition fits_int64 :: "int \<Rightarrow> bool" where
  "fits_int64 i = (- (2 ^ 63) \<le> i \<and> i < 2 ^ 63)"

definition fits_uint64 :: "int \<Rightarrow> bool" where
  "fits_uint64 i = (0 \<le> i \<and> i < 2 ^ 64)"

definition wrap64 :: "int \<Rightarrow> int" where
  "wrap64 i = (if 2 ^ 63 \<le> i then i - 2 ^ 64 else i)"

definition index_array :: "int list \<Rightarrow> py_error + int list" where
  "index_array ids =
     (if list_all fits_int64 ids then Inr ids
      else if list_all fits_uint64 ids then Inr (map wrap64 ids)
      else Inl IndexError)"

definition select_rows :: "ndarray \<Rightarrow> int list \<Rightarrow> py_error + ndarray" where
  "select_rows t idx =
     (if list_all (in_bounds (nrows t)) idx
      then Inr (Arr (ncols t) (map (\<lambda>i. rows t ! norm_index (nrows t) i) idx))
      else Inl IndexError)"

definition take_rows :: "ndarray \<Rightarrow> int list \<Rightarrow> py_error + ndarray" where
  "take_rows t ids =
     (if list_all (in_bounds (nrows t)) ids then select_rows t ids
      else and_then (index_array ids) (select_rows t))"

subsection \<open>Reductions along the last axis, \<^verbatim>\<open>keepdims=True\<close>\<close>

text \<open>
  Each returns an array of shape \<open>(n, 1)\<close>. \<^verbatim>\<open>np.max\<close> has no identity and raises
  \<^verbatim>\<open>ValueError\<close> when the reduced axis is empty. The mean and the variance of an empty
  row are \<open>nan\<close> in numpy and \<open>0\<close> here (\<open>x / 0 = 0\<close> in HOL); in \<open>layer_norm\<close>, their
  only user, they are then broadcast against rows with no entry and leave no trace in
  the result.
\<close>

definition mean :: "real list \<Rightarrow> real" where
  "mean r = sum_list r / real (length r)"

definition var :: "real list \<Rightarrow> real" where
  "var r = mean (map (\<lambda>v. (v - mean r)\<^sup>2) r)"

definition np_mean :: "ndarray \<Rightarrow> ndarray" where
  "np_mean x = Arr 1 (map (\<lambda>r. [mean r]) (rows x))"

definition np_var :: "ndarray \<Rightarrow> ndarray" where
  "np_var x = Arr 1 (map (\<lambda>r. [var r]) (rows x))"

definition np_sum :: "ndarray \<Rightarrow> ndarray" where
  "np_sum x = Arr 1 (map (\<lambda>r. [sum_list r]) (rows x))"

definition np_max :: "ndarray \<Rightarrow> py_error + ndarray" where
  "np_max x =
     (if ncols x = 0 then Inl ValueError
      else Inr (Arr 1 (map (\<lambda>r. [Max (set r)]) (rows x))))"

section \<open>The program\<close>

subsection \<open>Embedding finalizer\<close>

text \<open>
  \<^verbatim>\<open>
  def mean_pooling_and_normalization(x):
      o = np.mean(x, axis=0)
      return o / np.linalg.norm(o)
  \<close>
  No path raises: numpy divides by zero with a warning and stores \<open>nan\<close> (or an
  infinity). The mean over no rows is \<open>nan\<close> in every column.
\<close>

definition mean_pool :: "ndarray \<Rightarrow> real list" where
  "mean_pool x = map (\<lambda>j. mean (col x j)) [0..<ncols x]"

definition l2_norm :: "real list \<Rightarrow> real" where
  "l2_norm v = sqrt (sum_list (map (\<lambda>a. a\<^sup>2) v))"

definition mean_pooling_and_normalization :: "ndarray \<Rightarrow> py_error + npfloat list" where
  "mean_pooling_and_normalization x =
     (if nrows x = 0 then Inr (replicate (ncols x) NaN)
      else let pooled = mean_pool x in Inr (map (\<lambda>v. np_divide v (l2_norm pooled)) pooled))"

subsection \<open>Tensor primitives\<close>

definition gelu1 :: "real \<Rightarrow> real" where
  "gelu1 x = 0.5 * x * (1 + tanh (sqrt (2 / pi) * (x + 0.044715 * x ^ 3)))"

definition gelu :: "ndarray \<Rightarrow> ndarray" where
  "gelu x = map_arr gelu1 x"

definition relu :: "ndarray \<Rightarrow> ndarray" where
  "relu x = map_arr (max 0) x"

text \<open>
  \<^verbatim>\<open>
  def softmax(x):
      exp_x = np.exp(x - np.max(x, axis=-1, keepdims=True))
      return exp_x / np.sum(exp_x, axis=-1, keepdims=True)
  \<close>
\<close>

text \<open>The value of \<^verbatim>\<open>exp_x\<close> (the first line of the body), and the function.\<close>

definition exp_x :: "ndarray \<Rightarrow> py_error + ndarray" where
  "exp_x x =
     and_then (np_max x) (\<lambda>m.
     and_then (broadcast2 (-) x m) (\<lambda>d.
       Inr (map_arr exp d)))"

definition softmax :: "ndarray \<Rightarrow> py_error + ndarray" where
  "softmax x = and_then (exp_x x) (\<lambda>e. broadcast2 (/) e (np_sum e))"

text \<open>
  \<^verbatim>\<open>
  def layer_norm(x, g, b, eps=1e-12):
      mean = np.mean(x, axis=-1, keepdims=True)
      variance = np.var(x, axis=-1, keepdims=True)
      return g * (x - mean) / np.sqrt(variance + eps) + b
  \<close>
\<close>

definition eps :: real where
  "eps = 1 / 10 ^ 12"

record ln_params =
  ln_g :: "real list"
  ln_b :: "real list"

definition layer_norm :: "ndarray \<Rightarrow> ln_params \<Rightarrow> py_error + ndarray" where
  "layer_norm x p =
     (let mean_x = np_mean x; variance = np_var x in
      and_then (broadcast2 (-) x mean_x) (\<lambda>d.
      and_then (broadcast2 (*) (row_vec (ln_g p)) d) (\<lambda>gd.
      and_then (broadcast2 (/) gd (map_arr sqrt (map_arr (\<lambda>v. v + eps) variance))) (\<lambda>q.
        broadcast2 (+) q (row_vec (ln_b p))))))"

text \<open>\<^verbatim>\<open>def linear(x, w, b): return x @ w + b\<close>\<close>

record linear_params =
  lin_w :: ndarray
  lin_b :: "real list"

definition linear_np :: "ndarray \<Rightarrow> linear_params \<Rightarrow> py_error + ndarray" where
  "linear_np x p = and_then (matmul x (lin_w p)) (\<lambda>y. broadcast2 (+) y (row_vec (lin_b p)))"

text \<open>\<^verbatim>\<open>def ffn(x, c_fc, c_proj): return linear(gelu(linear(x, **c_fc)), **c_proj)\<close>\<close>

record mlp_params =
  mlp_c_fc :: linear_params
  mlp_c_proj :: linear_params

definition ffn :: "ndarray \<Rightarrow> mlp_params \<Rightarrow> py_error + ndarray" where
  "ffn x p = and_then (linear_np x (mlp_c_fc p)) (\<lambda>h. linear_np (gelu h) (mlp_c_proj p))"

subsection \<open>Attention\<close>

text \<open>
  \<^verbatim>\<open>
  def attention(q, k, v):
      return softmax(q @ k.T / np.sqrt(q.shape[-1])) @ v
  \<close>
  \<^verbatim>\<open>@\<close> and \<^verbatim>\<open>/\<close> have the same precedence and associate to the left. For a
  \<open>q\<close> with no column numpy divides zeros by zero and the weights are \<open>nan\<close>, here they are
  uniform; \<open>mha\<close> passes a \<open>v\<close> of the same width, so that the product has no entry
  either way.
\<close>

definition attention :: "ndarray \<Rightarrow> ndarray \<Rightarrow> ndarray \<Rightarrow> py_error + ndarray" where
  "attention q k v =
     and_then (matmul q (transpose_arr k)) (\<lambda>s.
     and_then (softmax (map_arr (\<lambda>e. e / sqrt (real (ncols q))) s)) (\<lambda>a.
       matmul a v))"

text \<open>
  \<^verbatim>\<open>
  def mha(x, c_attn, c_proj, n_head):
      x = linear(x, **c_attn)
      qkv_heads = list(
          map(lambda x: np.split(x, n_head, axis=-1), np.split(x, 3, axis=-1))
      )
      out_heads = [attention(q, k, v) for q, k, v in zip(*qkv_heads)]
      x = linear(np.hstack(out_heads), **c_proj)
      return x
  \<close>
  \<open>qkv_heads\<close> is the list of the three lists of heads; \<^verbatim>\<open>zip(*qkv_heads)\<close> pairs
  them up head by head.
\<close>

record attn_params =
  attn_c_attn :: linear_params
  attn_c_proj :: linear_params

definition split_heads :: "ndarray list \<Rightarrow> nat \<Rightarrow> py_error + ndarray list list" where
  "split_heads qkv n_head = collect (map (\<lambda>y. np_split y n_head) qkv)"

definition zip_heads :: "ndarray list list \<Rightarrow> (ndarray \<times> ndarray \<times> ndarray) list" where
  "zip_heads qkv_heads = zip (qkv_heads ! 0) (zip (qkv_heads ! 1) (qkv_heads ! 2))"

definition mha :: "ndarray \<Rightarrow> attn_params \<Rightarrow> nat \<Rightarrow> py_error + ndarray" where
  "mha x p n_head =
     and_then (linear_np x (attn_c_attn p)) (\<lambda>x1.
     and_then (np_split x1 3) (\<lambda>qkv.
     and_then (split_heads qkv n_head) (\<lambda>qkv_heads.
     and_then (collect (map (\<lambda>(q, k, v). attention q k v) (zip_heads qkv_heads))) (\<lambda>out_heads.
     and_then (hstack out_heads) (\<lambda>h.
       linear_np h (attn_c_proj p))))))"

subsection \<open>Transformer block and encoder\<close>

text \<open>
  \<^verbatim>\<open>
  def transformer_block(x, mlp, attn, ln_1, ln_2, n_head):
      x = layer_norm(x + mha(x, **attn, n_head=n_head), **ln_1)
      x = layer_norm(x + ffn(x, **mlp), **ln_2)
      return x
  \<close>
\<close>

record block_params =
  mlp :: mlp_params
  attn :: attn_params
  ln_1 :: ln_params
  ln_2 :: ln_params

definition transformer_block :: "ndarray \<Rightarrow> block_params \<Rightarrow> nat \<Rightarrow> py_error + ndarray" where
  "transformer_block x p n_head =
     and_then (mha x (attn p) n_head) (\<lambda>a.
     and_then (broadcast2 (+) x a) (\<lambda>s1.
     and_then (layer_norm s1 (ln_1 p)) (\<lambda>x1.
     and_then (ffn x1 (mlp p)) (\<lambda>f.
     and_then (broadcast2 (+) x1 f) (\<lambda>s2.
       layer_norm s2 (ln_2 p))))))"

text \<open>
  \<^verbatim>\<open>
  def bert(inputs, segment_ids, wte, wpe, wtte, ln_0, blocks, pooler, n_head):
      x = wte[inputs] + wpe[range(len(inputs))] + wtte[segment_ids]
      x = layer_norm(x, **ln_0)
      for block in blocks:
          x = transformer_block(x, **block, n_head=n_head)
      return x
      # return np.tanh(linear(x, **pooler))
  \<close>
\<close>

record params =
  ln_0 :: ln_params
  wte :: ndarray
  wpe :: ndarray
  wtte :: ndarray
  blocks :: "block_params list"
  pooler :: linear_params

fun run_blocks :: "block_params list \<Rightarrow> nat \<Rightarrow> ndarray \<Rightarrow> py_error + ndarray" where
  "run_blocks [] n_head x = Inr x"
| "run_blocks (block # rest) n_head x =
     and_then (transformer_block x block n_head) (run_blocks rest n_head)"

definition bert :: "int list \<Rightarrow> int list \<Rightarrow> params \<Rightarrow> nat \<Rightarrow> py_error + ndarray" where
  "bert inputs segment_ids p n_head =
     and_then (take_rows (wte p) inputs) (\<lambda>t.
     and_then (take_rows (wpe p) (map int [0..<length inputs])) (\<lambda>pos.
     and_then (broadcast2 (+) t pos) (\<lambda>tp.
     and_then (take_rows (wtte p) segment_ids) (\<lambda>seg.
     and_then (broadcast2 (+) tp seg) (\<lambda>x.
     and_then (layer_norm x (ln_0 p)) (\<lambda>x0.
       run_blocks (blocks p) n_head x0))))))"

subsection \<open>Parameter tree builder\<close>

text \<open>
  \<^verbatim>\<open>torch.load\<close> is outside the program; its result, the state dict, is the
  argument. The state dict is kept by rank: the 2-D tensors (the weights of the linear
  and embedding layers) and the 1-D tensors (biases, layer-norm weights); each name is
  read at the rank of the tensor that the checkpoint format stores under it. A missing
  key raises \<^verbatim>\<open>KeyError\<close>, which carries the key.
\<close>

record state_dict =
  matrices :: "string \<rightharpoonup> ndarray"
  vectors :: "string \<rightharpoonup> real list"

definition get_mat :: "state_dict \<Rightarrow> string \<Rightarrow> py_error + ndarray" where
  "get_mat model key = (case matrices model key of None \<Rightarrow> Inl (KeyError key) | Some m \<Rightarrow> Inr m)"

definition get_vec :: "state_dict \<Rightarrow> string \<Rightarrow> py_error + real list" where
  "get_vec model key = (case vectors model key of None \<Rightarrow> Inl (KeyError key) | Some v \<Rightarrow> Inr v)"

text \<open>The decimal numeral of \<open>i\<close>, as the f-string writes it.\<close>

fun str_nat :: "nat \<Rightarrow> string" where
  "str_nat n =
     (if n < 10 then [char_of (48 + n)]
      else str_nat (n div 10) @ [char_of (48 + n mod 10)])"

declare str_nat.simps [simp del]

definition prefix :: string where
  "prefix = []"

definition layer_key :: "nat \<Rightarrow> string \<Rightarrow> string" where
  "layer_key i name = prefix @ ''encoder.layer.'' @ str_nat i @ ''.'' @ name"

text \<open>The body of the loop over the layers (lines 32 to 89), in the order in which the
  source reads the keys.\<close>

definition load_block :: "state_dict \<Rightarrow> nat \<Rightarrow> py_error + block_params" where
  "load_block model i =
     and_then (get_mat model (layer_key i ''attention.self.query.weight'')) (\<lambda>q_w.
     and_then (get_vec model (layer_key i ''attention.self.query.bias'')) (\<lambda>q_b.
     and_then (get_mat model (layer_key i ''attention.self.key.weight'')) (\<lambda>k_w.
     and_then (get_vec model (layer_key i ''attention.self.key.bias'')) (\<lambda>k_b.
     and_then (get_mat model (layer_key i ''attention.self.value.weight'')) (\<lambda>v_w.
     and_then (get_vec model (layer_key i ''attention.self.value.bias'')) (\<lambda>v_b.
     and_then (hstack [transpose_arr q_w, transpose_arr k_w, transpose_arr v_w]) (\<lambda>c_attn_w.
     and_then (get_mat model (layer_key i ''attention.output.dense.weight'')) (\<lambda>c_proj_w.
     and_then (get_vec model (layer_key i ''attention.output.dense.bias'')) (\<lambda>c_proj_b.
     and_then (get_vec model (layer_key i ''attention.output.LayerNorm.weight'')) (\<lambda>ln_1_g.
     and_then (get_vec model (layer_key i ''attention.output.LayerNorm.bias'')) (\<lambda>ln_1_b.
     and_then (get_mat model (layer_key i ''intermediate.dense.weight'')) (\<lambda>c_fc_w.
     and_then (get_vec model (layer_key i ''intermediate.dense.bias'')) (\<lambda>c_fc_b.
     and_then (get_mat model (layer_key i ''output.dense.weight'')) (\<lambda>mlp_proj_w.
     and_then (get_vec model (layer_key i ''output.dense.bias'')) (\<lambda>mlp_proj_b.
     and_then (get_vec model (layer_key i ''output.LayerNorm.weight'')) (\<lambda>ln_2_g.
     and_then (get_vec model (layer_key i ''output.LayerNorm.bias'')) (\<lambda>ln_2_b.
       Inr \<lparr>mlp = \<lparr>mlp_c_fc = \<lparr>lin_w = transpose_arr c_fc_w, lin_b = c_fc_b\<rparr>,
                    mlp_c_proj = \<lparr>lin_w = transpose_arr mlp_proj_w, lin_b = mlp_proj_b\<rparr>\<rparr>,
            attn = \<lparr>attn_c_attn = \<lparr>lin_w = c_attn_w, lin_b = hstack1 [q_b, k_b, v_b]\<rparr>,
                     attn_c_proj = \<lparr>lin_w = transpose_arr c_proj_w, lin_b = c_proj_b\<rparr>\<rparr>,
            ln_1 = \<lparr>ln_g = ln_1_g, ln_b = ln_1_b\<rparr>,
            ln_2 = \<lparr>ln_g = ln_2_g, ln_b = ln_2_b\<rparr>\<rparr>)))))))))))))))))"

record hparams =
  hp_n_head :: nat
  hp_n_ctx :: nat

definition n_layers :: nat where
  "n_layers = 6"

definition load_encoder_hparams_and_params :: "state_dict \<Rightarrow> py_error + hparams \<times> params" where
  "load_encoder_hparams_and_params model =
     and_then (get_mat model (prefix @ ''embeddings.word_embeddings.weight'')) (\<lambda>wte'.
     and_then (get_mat model (prefix @ ''embeddings.position_embeddings.weight'')) (\<lambda>wpe'.
     and_then (get_mat model (prefix @ ''embeddings.token_type_embeddings.weight'')) (\<lambda>wtte'.
     and_then (get_vec model (prefix @ ''embeddings.LayerNorm.weight'')) (\<lambda>ln_0_g.
     and_then (get_vec model (prefix @ ''embeddings.LayerNorm.bias'')) (\<lambda>ln_0_b.
     and_then (collect (map (load_block model) [0..<n_layers])) (\<lambda>blocks'.
     and_then (get_mat model ''pooler.dense.weight'') (\<lambda>pooler_w.
     and_then (get_vec model ''pooler.dense.bias'') (\<lambda>pooler_b.
       Inr (\<lparr>hp_n_head = 12, hp_n_ctx = 1024\<rparr>,
            \<lparr>ln_0 = \<lparr>ln_g = ln_0_g, ln_b = ln_0_b\<rparr>,
             wte = wte', wpe = wpe', wtte = wtte',
             blocks = blocks',
             pooler = \<lparr>lin_w = transpose_arr pooler_w, lin_b = pooler_b\<rparr>\<rparr>)))))))))"

subsection \<open>The script\<close>

text \<open>
  Lines 165 to 186: the parameters are loaded first; then every sentence (its token
  ids, from the tokenizer) is encoded with segment id 0 at every position and
  finalized. The similarity matrix printed at the end is left out.
\<close>

definition embed_sentences :: "state_dict \<Rightarrow> int list list \<Rightarrow> py_error + npfloat list list" where
  "embed_sentences model sentences =
     and_then (load_encoder_hparams_and_params model) (\<lambda>(hparams, params).
       collect (map (\<lambda>sentence_ids.
           and_then (bert sentence_ids (replicate (length sentence_ids) 0) params (hp_n_head hparams))
             mean_pooling_and_normalization)
         sentences))"

section \<open>The specification's formulas\<close>

text \<open>
  What the specification says each stage computes, written on the rows of a matrix
  (one row per position of the sequence) with no exception and no broadcasting. The
  theorems below compare the program with these.
\<close>

text \<open>\<open>x @ weight + bias\<close> at one position.\<close>

definition affine :: "linear_params \<Rightarrow> real list \<Rightarrow> real list" where
  "affine p r = map (\<lambda>j. dot r (col (lin_w p) j) + lin_b p ! j) [0..<ncols (lin_w p)]"

text \<open>Subtract the maximum of the row, exponentiate, divide by the sum of the row.\<close>

definition softmax_row :: "real list \<Rightarrow> real list" where
  "softmax_row r =
     map (\<lambda>v. exp (v - Max (set r)) / sum_list (map (\<lambda>u. exp (u - Max (set r))) r)) r"

text \<open>Subtract the mean, divide by \<open>sqrt (variance + eps)\<close>, scale by the gain, shift by
  the bias.\<close>

definition layer_norm_row :: "ln_params \<Rightarrow> real list \<Rightarrow> real list" where
  "layer_norm_row p r =
     map (\<lambda>j. ln_g p ! j * ((r ! j - mean r) / sqrt (var r + eps)) + ln_b p ! j) [0..<length r]"

text \<open>
  Scaled dot-product attention of one head. The weights of a query position are the
  softmax over the scores against every key position (no mask); its output is the sum
  of the value rows under these weights.
\<close>

definition attention_weights :: "real list list \<Rightarrow> real list list \<Rightarrow> real list list" where
  "attention_weights Q K =
     map (\<lambda>q. softmax_row (map (\<lambda>k. dot q k / sqrt (real (length q))) K)) Q"

definition attend :: "nat \<Rightarrow> real list list \<Rightarrow> real list list \<Rightarrow> real list list \<Rightarrow> real list list" where
  "attend w Q K V =
     map (\<lambda>a. map (\<lambda>c. dot a (map (\<lambda>v. v ! c) V)) [0..<w]) (attention_weights Q K)"

text \<open>
  Multi-head attention for hidden width \<open>d\<close> and \<open>n\<close> heads of width \<open>d div n\<close>: of the
  fused projection \<open>y\<close> of a position, \<open>Q\<close>, \<open>K\<close>, \<open>V\<close> are the chunks 0, 1, 2 of width \<open>d\<close>,
  and head \<open>h\<close> reads chunk \<open>h\<close> of width \<open>d div n\<close> of each.
\<close>

definition head_part :: "nat \<Rightarrow> nat \<Rightarrow> nat \<Rightarrow> nat \<Rightarrow> real list list \<Rightarrow> real list list" where
  "head_part d n t h Y = map (\<lambda>y. chunk (d div n) h (chunk d t y)) Y"

definition mha_spec :: "nat \<Rightarrow> attn_params \<Rightarrow> nat \<Rightarrow> real list list \<Rightarrow> real list list" where
  "mha_spec d p n X =
     (let Y = map (affine (attn_c_attn p)) X;
          heads = map (\<lambda>h. attend (d div n) (head_part d n 0 h Y) (head_part d n 1 h Y)
                               (head_part d n 2 h Y)) [0..<n];
          merged = map (\<lambda>i. concat (map (\<lambda>out. out ! i) heads)) [0..<length X]
      in map (affine (attn_c_proj p)) merged)"

text \<open>
  The same, entry by entry and with no list operation. The fused projection of a
  position has \<open>3 * d\<close> columns: \<open>Q\<close>, \<open>K\<close>, \<open>V\<close> (\<open>t = 0, 1, 2\<close>) are its columns from
  \<open>t * d\<close>, and head \<open>h\<close> reads the \<open>d div n\<close> columns from \<open>h * (d div n)\<close> of each.
  The score of position \<open>i\<close> against position \<open>j\<close> is the product of their \<open>Q\<close> and \<open>K\<close>
  rows over \<open>sqrt (d div n)\<close>; the weight is its exponential over the sum of the
  exponentials of the scores of \<open>i\<close> against all positions; the output of the head is the
  sum of the \<open>V\<close> rows under these weights. Column \<open>m\<close> of the joined heads is column
  \<open>m mod (d div n)\<close> of head \<open>m div (d div n)\<close>, and the result is the output projection
  of the joined heads.
\<close>

definition proj_entry :: "linear_params \<Rightarrow> real list \<Rightarrow> nat \<Rightarrow> real" where
  "proj_entry p r j = (\<Sum>k<length r. r ! k * rows (lin_w p) ! k ! j) + lin_b p ! j"

definition qkv_entry ::
  "nat \<Rightarrow> nat \<Rightarrow> attn_params \<Rightarrow> real list list \<Rightarrow> nat \<Rightarrow> nat \<Rightarrow> nat \<Rightarrow> nat \<Rightarrow> real" where
  "qkv_entry d n p X t h i c = proj_entry (attn_c_attn p) (X ! i) (t * d + h * (d div n) + c)"

definition attn_score ::
  "nat \<Rightarrow> nat \<Rightarrow> attn_params \<Rightarrow> real list list \<Rightarrow> nat \<Rightarrow> nat \<Rightarrow> nat \<Rightarrow> real" where
  "attn_score d n p X h i j =
     (\<Sum>c<d div n. qkv_entry d n p X 0 h i c * qkv_entry d n p X 1 h j c) / sqrt (real (d div n))"

definition attn_weight ::
  "nat \<Rightarrow> nat \<Rightarrow> attn_params \<Rightarrow> real list list \<Rightarrow> nat \<Rightarrow> nat \<Rightarrow> nat \<Rightarrow> real" where
  "attn_weight d n p X h i j =
     exp (attn_score d n p X h i j) / (\<Sum>j'<length X. exp (attn_score d n p X h i j'))"

definition head_out ::
  "nat \<Rightarrow> nat \<Rightarrow> attn_params \<Rightarrow> real list list \<Rightarrow> nat \<Rightarrow> nat \<Rightarrow> nat \<Rightarrow> real" where
  "head_out d n p X h i c =
     (\<Sum>j<length X. attn_weight d n p X h i j * qkv_entry d n p X 2 h j c)"

definition mha_formula :: "nat \<Rightarrow> nat \<Rightarrow> attn_params \<Rightarrow> real list list \<Rightarrow> real list list" where
  "mha_formula d n p X =
     map (\<lambda>i. map (\<lambda>j. (\<Sum>m<d. head_out d n p X (m div (d div n)) i (m mod (d div n))
                               * rows (lin_w (attn_c_proj p)) ! m ! j)
                       + lin_b (attn_c_proj p) ! j) [0..<d])
       [0..<length X]"

definition ffn_spec :: "mlp_params \<Rightarrow> real list list \<Rightarrow> real list list" where
  "ffn_spec p X = map (\<lambda>r. affine (mlp_c_proj p) (map gelu1 (affine (mlp_c_fc p) r))) X"

definition add_rows :: "real list list \<Rightarrow> real list list \<Rightarrow> real list list" where
  "add_rows X Y = map2 (map2 (+)) X Y"

text \<open>Post-norm: each layer normalization is applied to the sum of a sub-layer's input
  and output.\<close>

definition block_spec :: "nat \<Rightarrow> nat \<Rightarrow> block_params \<Rightarrow> real list list \<Rightarrow> real list list" where
  "block_spec d n p X =
     (let X1 = map (layer_norm_row (ln_1 p)) (add_rows X (mha_spec d (attn p) n X))
      in map (layer_norm_row (ln_2 p)) (add_rows X1 (ffn_spec (mlp p) X1)))"

text \<open>The input representation: at position \<open>i\<close>, the sum of the token row, of row \<open>i\<close>
  of the position table and of the segment row.\<close>

definition embed_spec :: "params \<Rightarrow> int list \<Rightarrow> int list \<Rightarrow> real list list" where
  "embed_spec p token_ids segment_ids =
     map (\<lambda>i. map (\<lambda>j. rows (wte p) ! nat (token_ids ! i) ! j
                      + rows (wpe p) ! i ! j
                      + rows (wtte p) ! nat (segment_ids ! i) ! j) [0..<ncols (wte p)])
       [0..<length token_ids]"

definition encoder_spec :: "nat \<Rightarrow> nat \<Rightarrow> params \<Rightarrow> int list \<Rightarrow> int list \<Rightarrow> real list list" where
  "encoder_spec d n p token_ids segment_ids =
     foldl (\<lambda>X block. block_spec d n block X)
       (map (layer_norm_row (ln_0 p)) (embed_spec p token_ids segment_ids))
       (blocks p)"

subsection \<open>The shapes of the data model\<close>

definition wf_linear :: "linear_params \<Rightarrow> nat \<Rightarrow> nat \<Rightarrow> bool" where
  "wf_linear p i o' \<longleftrightarrow>
     wf_arr (lin_w p) \<and> nrows (lin_w p) = i \<and> ncols (lin_w p) = o' \<and> length (lin_b p) = o'"

definition wf_ln :: "ln_params \<Rightarrow> nat \<Rightarrow> bool" where
  "wf_ln p d \<longleftrightarrow> length (ln_g p) = d \<and> length (ln_b p) = d"

definition wf_attn :: "attn_params \<Rightarrow> nat \<Rightarrow> bool" where
  "wf_attn p d \<longleftrightarrow> wf_linear (attn_c_attn p) d (3 * d) \<and> wf_linear (attn_c_proj p) d d"

definition wf_mlp :: "mlp_params \<Rightarrow> nat \<Rightarrow> bool" where
  "wf_mlp p d \<longleftrightarrow>
     wf_linear (mlp_c_fc p) d (ncols (lin_w (mlp_c_fc p)))
     \<and> wf_linear (mlp_c_proj p) (ncols (lin_w (mlp_c_fc p))) d"

definition wf_block :: "block_params \<Rightarrow> nat \<Rightarrow> bool" where
  "wf_block p d \<longleftrightarrow> wf_mlp (mlp p) d \<and> wf_attn (attn p) d \<and> wf_ln (ln_1 p) d \<and> wf_ln (ln_2 p) d"

definition wf_params :: "params \<Rightarrow> nat \<Rightarrow> bool" where
  "wf_params p d \<longleftrightarrow>
     wf_arr (wte p) \<and> ncols (wte p) = d
     \<and> wf_arr (wpe p) \<and> ncols (wpe p) = d
     \<and> wf_arr (wtte p) \<and> ncols (wtte p) = d \<and> nrows (wtte p) = 2
     \<and> wf_ln (ln_0 p) d
     \<and> list_all (\<lambda>b. wf_block b d) (blocks p)"

text \<open>A valid token sequence for a parameter tree.\<close>

definition valid_tokens :: "params \<Rightarrow> int list \<Rightarrow> int list \<Rightarrow> bool" where
  "valid_tokens p token_ids segment_ids \<longleftrightarrow>
     length segment_ids = length token_ids
     \<and> 0 < length token_ids
     \<and> length token_ids \<le> nrows (wpe p)
     \<and> list_all (\<lambda>t. 0 \<le> t \<and> t < int (nrows (wte p))) token_ids
     \<and> list_all (\<lambda>s. s = 0 \<or> s = 1) segment_ids"

subsection \<open>The names the builder reads\<close>

definition layer_matrix_names :: "string list" where
  "layer_matrix_names =
     [''attention.self.query.weight'', ''attention.self.key.weight'',
      ''attention.self.value.weight'', ''attention.output.dense.weight'',
      ''intermediate.dense.weight'', ''output.dense.weight'']"

definition layer_vector_names :: "string list" where
  "layer_vector_names =
     [''attention.self.query.bias'', ''attention.self.key.bias'',
      ''attention.self.value.bias'', ''attention.output.dense.bias'',
      ''attention.output.LayerNorm.weight'', ''attention.output.LayerNorm.bias'',
      ''intermediate.dense.bias'', ''output.dense.bias'',
      ''output.LayerNorm.weight'', ''output.LayerNorm.bias'']"

definition expected_matrices :: "string list" where
  "expected_matrices =
     [prefix @ ''embeddings.word_embeddings.weight'',
      prefix @ ''embeddings.position_embeddings.weight'',
      prefix @ ''embeddings.token_type_embeddings.weight'']
     @ concat (map (\<lambda>i. map (layer_key i) layer_matrix_names) [0..<n_layers])
     @ [''pooler.dense.weight'']"

definition expected_vectors :: "string list" where
  "expected_vectors =
     [prefix @ ''embeddings.LayerNorm.weight'', prefix @ ''embeddings.LayerNorm.bias'']
     @ concat (map (\<lambda>i. map (layer_key i) layer_vector_names) [0..<n_layers])
     @ [''pooler.dense.bias'']"

definition missing :: "state_dict \<Rightarrow> string \<Rightarrow> bool" where
  "missing model key \<longleftrightarrow>
     key \<in> set expected_matrices \<and> matrices model key = None
     \<or> key \<in> set expected_vectors \<and> vectors model key = None"

text \<open>In every layer, the query, key and value weights that are present have the same
  number of columns (their input width).\<close>

definition qkv_aligned_at :: "state_dict \<Rightarrow> nat \<Rightarrow> bool" where
  "qkv_aligned_at model i =
     (case (matrices model (layer_key i ''attention.self.query.weight''),
            matrices model (layer_key i ''attention.self.key.weight''),
            matrices model (layer_key i ''attention.self.value.weight'')) of
        (Some q, Some k, Some v) \<Rightarrow> ncols k = ncols q \<and> ncols v = ncols q
      | _ \<Rightarrow> True)"

definition qkv_aligned :: "state_dict \<Rightarrow> bool" where
  "qkv_aligned model = list_all (qkv_aligned_at model) [0..<n_layers]"

text \<open>A linear layer of the weight store at one position: its weight \<open>W\<close> is stored as
  \<open>[out_dim, in_dim]\<close>, and output \<open>o\<close> is the product of the input with row \<open>o\<close> of \<open>W\<close>,
  plus the bias.\<close>

definition stored_linear_row :: "ndarray \<Rightarrow> real list \<Rightarrow> real list \<Rightarrow> real list" where
  "stored_linear_row W b r = map (\<lambda>o'. dot r (rows W ! o') + b ! o') [0..<nrows W]"

section \<open>Concrete inputs\<close>

text \<open>The scenario of the specification: two token vectors that cancel; two token
  vectors whose mean is \<open>[3, 4]\<close>; and a row of two scores.\<close>

definition cancelling :: ndarray where
  "cancelling = Arr 2 [[1, 0], [-1, 0]]"

definition two_tokens :: ndarray where
  "two_tokens = Arr 2 [[1, 0], [5, 8]]"


definition four_wide :: ndarray where
  "four_wide = Arr 4 [[1, 2, 3, 4]]"

text \<open>A parameter tree of hidden width 2 with two heads of width 1, a vocabulary of
  three tokens, two positions and two blocks; and a token sequence for it.\<close>

definition tiny_ln :: ln_params where
  "tiny_ln = \<lparr>ln_g = [1, 1], ln_b = [0, 0]\<rparr>"

definition tiny_attn :: attn_params where
  "tiny_attn =
     \<lparr>attn_c_attn = \<lparr>lin_w = Arr 6 [[1, 0, 0, 1, 1, 0], [0, 1, 1, 0, 0, 1]],
                      lin_b = [0, 0, 0, 0, 0, 0]\<rparr>,
      attn_c_proj = \<lparr>lin_w = Arr 2 [[1, 0], [0, 1]], lin_b = [0, 0]\<rparr>\<rparr>"

definition tiny_mlp :: mlp_params where
  "tiny_mlp =
     \<lparr>mlp_c_fc = \<lparr>lin_w = Arr 3 [[1, 0, 1], [0, 1, 1]], lin_b = [0, 0, 0]\<rparr>,
      mlp_c_proj = \<lparr>lin_w = Arr 2 [[1, 0], [0, 1], [1, 1]], lin_b = [0, 0]\<rparr>\<rparr>"

definition tiny_block :: block_params where
  "tiny_block = \<lparr>mlp = tiny_mlp, attn = tiny_attn, ln_1 = tiny_ln, ln_2 = tiny_ln\<rparr>"

definition tiny_params :: params where
  "tiny_params =
     \<lparr>ln_0 = tiny_ln,
      wte = Arr 2 [[1, 0], [0, 1], [1, 1]],
      wpe = Arr 2 [[0, 0], [1, 0]],
      wtte = Arr 2 [[0, 0], [0, 1]],
      blocks = [tiny_block, tiny_block],
      pooler = \<lparr>lin_w = Arr 2 [[1, 0], [0, 1]], lin_b = [0, 0]\<rparr>\<rparr>"

definition tiny_x :: ndarray where
  "tiny_x = Arr 2 [[1, 1], [2, 1]]"

text \<open>A state dict that has every name, with tensors of one entry; one that has no
  name; and one that has every name, but whose key weight of layer 0 has two columns
  where the query and value weights have one.\<close>

definition uniform_dict :: state_dict where
  "uniform_dict = \<lparr>matrices = (\<lambda>key. Some (Arr 1 [[0]])), vectors = (\<lambda>key. Some [0])\<rparr>"

definition empty_dict :: state_dict where
  "empty_dict = \<lparr>matrices = Map.empty, vectors = Map.empty\<rparr>"

definition misaligned_dict :: state_dict where
  "misaligned_dict =
     \<lparr>matrices = (\<lambda>key. Some (if key = layer_key 0 ''attention.self.key.weight''
                                then Arr 2 [[0, 0]] else Arr 1 [[0]])),
      vectors = (\<lambda>key. Some [0])\<rparr>"

text \<open>A state dict with layer 0's query, key and value layers of input width 2 and
  output width 1, and an input of two positions.\<close>

definition qkv_dict :: state_dict where
  "qkv_dict =
     \<lparr>matrices = (\<lambda>key. Some (if key = layer_key 0 ''attention.self.query.weight'' then Arr 2 [[1, 0]]
                          else if key = layer_key 0 ''attention.self.key.weight'' then Arr 2 [[0, 1]]
                          else if key = layer_key 0 ''attention.self.value.weight'' then Arr 2 [[1, 1]]
                          else Arr 1 [[0]])),
      vectors = (\<lambda>key. Some (if key = layer_key 0 ''attention.self.query.bias'' then [1]
                          else if key = layer_key 0 ''attention.self.key.bias'' then [2]
                          else if key = layer_key 0 ''attention.self.value.bias'' then [3]
                          else [0]))\<rparr>"

section \<open>Basic facts\<close>

lemma and_then_Inr [simp]: "and_then (Inr v) f = f v"
  by (simp add: and_then_def)

lemma and_then_Inl [simp]: "and_then (Inl e) f = Inl e"
  by (simp add: and_then_def)

lemma nrows_Arr [simp]: "nrows (Arr c rs) = length rs"
  by (simp add: nrows_def)

lemma sum_list_div_const: "sum_list (map (\<lambda>s::real. s / c) xs) = sum_list xs / c"
  by (induction xs) (simp_all add: add_divide_distrib)

subsection \<open>The Euclidean norm\<close>

lemma sum_sq_nonneg: "0 \<le> sum_list (map (\<lambda>a::real. a\<^sup>2) v)"
  by (rule sum_list_nonneg) auto

lemma l2_norm_nonneg: "0 \<le> l2_norm v"
  by (simp add: l2_norm_def sum_sq_nonneg)

lemma l2_norm_eq_0: "l2_norm v = 0 \<longleftrightarrow> (\<forall>a \<in> set v. a = 0)"
proof -
  have "sum_list (map (\<lambda>a::real. a\<^sup>2) v) = 0 \<longleftrightarrow> (\<forall>s \<in> set (map (\<lambda>a. a\<^sup>2) v). s = 0)"
    by (rule sum_list_nonneg_eq_0_iff) auto
  then show ?thesis
    by (simp add: l2_norm_def)
qed

lemma l2_norm_scale:
  assumes "0 < c"
  shows "l2_norm (map (\<lambda>a. a / c) v) = l2_norm v / c"
proof -
  have "map (\<lambda>a. a\<^sup>2) (map (\<lambda>a. a / c) v) = map (\<lambda>s. s / c\<^sup>2) (map (\<lambda>a. a\<^sup>2) v)"
    by (simp add: power_divide)
  then have "sum_list (map (\<lambda>a. a\<^sup>2) (map (\<lambda>a. a / c) v)) = sum_list (map (\<lambda>a. a\<^sup>2) v) / c\<^sup>2"
    by (simp only: sum_list_div_const)
  then show ?thesis
    using assms by (simp add: l2_norm_def real_sqrt_divide del: map_map)
qed

lemma mean_pool_cancelling: "mean_pool cancelling = [0, 0]"
  by (simp add: cancelling_def mean_pool_def col_def mean_def upt_rec)

subsection \<open>Splitting\<close>

lemma chunk_bound:
  assumes "n dvd c" and "j < n"
  shows "Suc j * (c div n) \<le> c"
proof -
  have "Suc j * (c div n) \<le> n * (c div n)"
    using assms(2) by (intro mult_le_mono1) simp
  also have "\<dots> = c"
    using assms(1) by simp
  finally show ?thesis .
qed

lemma length_chunk: "Suc j * w \<le> length r \<Longrightarrow> length (chunk w j r) = w"
  by (simp add: chunk_def)

lemma np_split_zero: "np_split x 0 = Inl ZeroDivisionError"
  by (simp add: np_split_def)

lemma np_split_fails: "0 < n \<Longrightarrow> ncols x mod n \<noteq> 0 \<Longrightarrow> np_split x n = Inl ValueError"
  by (simp add: np_split_def)

lemma np_split_ok:
  "0 < n \<Longrightarrow> ncols x mod n = 0 \<Longrightarrow>
     np_split x n
       = Inr (map (\<lambda>j. Arr (ncols x div n) (map (chunk (ncols x div n) j) (rows x))) [0..<n])"
  by (simp add: np_split_def)

lemma wf_arr_chunks:
  assumes "wf_arr x" and "n dvd ncols x" and "j < n"
  shows "wf_arr (Arr (ncols x div n) (map (chunk (ncols x div n) j) (rows x)))"
  using assms chunk_bound [of n "ncols x" j]
  by (auto simp: wf_arr_def intro!: length_chunk)

subsection \<open>Broadcasting and the tensor primitives\<close>

lemma bc_dim_same [simp]: "bc_dim n n = Inr n"
  by (simp add: bc_dim_def)

lemma bc_dim_one_r [simp]: "bc_dim n 1 = Inr n"
  by (simp add: bc_dim_def)

lemma bc_dim_one_l [simp]: "bc_dim 1 n = Inr n"
  by (simp add: bc_dim_def)

lemma bc_dim_Suc0_r [simp]: "bc_dim n (Suc 0) = Inr n"
  by (simp add: bc_dim_def)

lemma bc_dim_Suc0_l [simp]: "bc_dim (Suc 0) n = Inr n"
  by (simp add: bc_dim_def)

lemma stretch_same: "length xs = n \<Longrightarrow> stretch n xs = xs"
  by (simp add: stretch_def)

lemma stretch_single: "stretch n [x] = replicate n x"
  by (auto simp: stretch_def)

lemma map2_replicate_r: "length xs = n \<Longrightarrow> map2 f xs (replicate n y) = map (\<lambda>x. f x y) xs"
  by (induction xs arbitrary: n) auto

lemma map2_replicate_l: "length ys = n \<Longrightarrow> map2 f (replicate n x) ys = map (f x) ys"
  by (induction ys arbitrary: n) auto

lemma map2_cong_zip:
  "(\<And>x y. (x, y) \<in> set (zip xs ys) \<Longrightarrow> f x y = g x y) \<Longrightarrow> map2 f xs ys = map2 g xs ys"
  by (rule map_cong) auto

lemma broadcast2_col:
  assumes "wf_arr a" and "length ms = nrows a"
  shows "broadcast2 f a (Arr 1 (map (\<lambda>m. [m]) ms))
           = Inr (Arr (ncols a) (map2 (\<lambda>r m. map (\<lambda>v. f v m) r) (rows a) ms))"
proof -
  have "map2 (\<lambda>ra rb. map2 f (stretch (ncols a) ra) (stretch (ncols a) rb)) (rows a) (map (\<lambda>m. [m]) ms)
          = map2 (\<lambda>r m. map (\<lambda>v. f v m) r) (rows a) ms"
    unfolding zip_map2 map_map
  proof (rule map_cong [OF refl])
    fix p
    assume mem: "p \<in> set (zip (rows a) ms)"
    obtain r m where p: "p = (r, m)"
      by (cases p)
    have "r \<in> set (rows a)"
      using mem unfolding p by (rule set_zip_leftD)
    then have "length r = ncols a"
      using assms(1) by (simp add: wf_arr_def)
    then show "((\<lambda>(ra, rb). map2 f (stretch (ncols a) ra) (stretch (ncols a) rb)) \<circ> (\<lambda>(x, y). (x, [y]))) p
                 = (case p of (r, m) \<Rightarrow> map (\<lambda>v. f v m) r)"
      unfolding p by (simp add: stretch_same stretch_single map2_replicate_r)
  qed
  then show ?thesis
    using assms(2) by (simp add: broadcast2_def stretch_same nrows_def)
qed

lemma broadcast2_row_r:
  assumes "wf_arr a" and "length v = ncols a"
  shows "broadcast2 f a (row_vec v) = Inr (Arr (ncols a) (map (\<lambda>r. map2 f r v) (rows a)))"
proof -
  have "map (\<lambda>r. map2 f (stretch (ncols a) r) (stretch (ncols a) v)) (rows a)
          = map (\<lambda>r. map2 f r v) (rows a)"
    using assms by (intro map_cong) (auto simp: wf_arr_def stretch_same)
  then show ?thesis
    using assms(2)
    by (simp add: broadcast2_def row_vec_def stretch_same stretch_single map2_replicate_r nrows_def)
qed

lemma broadcast2_row_l:
  assumes "wf_arr a" and "length v = ncols a"
  shows "broadcast2 f (row_vec v) a = Inr (Arr (ncols a) (map (\<lambda>r. map2 f v r) (rows a)))"
proof -
  have "map (\<lambda>r. map2 f (stretch (ncols a) v) (stretch (ncols a) r)) (rows a)
          = map (\<lambda>r. map2 f v r) (rows a)"
    using assms by (intro map_cong) (auto simp: wf_arr_def stretch_same)
  then show ?thesis
    using assms(2)
    by (simp add: broadcast2_def row_vec_def stretch_same stretch_single map2_replicate_l nrows_def)
qed

lemma broadcast2_same:
  assumes "wf_arr a" and "wf_arr b" and "nrows a = nrows b" and "ncols a = ncols b"
  shows "broadcast2 f a b = Inr (Arr (ncols a) (map2 (map2 f) (rows a) (rows b)))"
proof -
  have "map2 (\<lambda>ra rb. map2 f (stretch (ncols b) ra) (stretch (ncols b) rb)) (rows a) (rows b)
          = map2 (map2 f) (rows a) (rows b)"
    using assms
    by (intro map2_cong_zip) (auto simp: wf_arr_def stretch_same elim!: in_set_zipE)
  then show ?thesis
    using assms(3,4) by (simp add: broadcast2_def stretch_same nrows_def)
qed


lemma wf_arr_Arr: "wf_arr (Arr c rs) \<longleftrightarrow> (\<forall>r \<in> set rs. length r = c)"
  by (simp add: wf_arr_def)

lemma wf_map_arr [simp]: "wf_arr (map_arr f a) = wf_arr a"
  by (simp add: map_arr_def wf_arr_def)

lemma ncols_map_arr [simp]: "ncols (map_arr f a) = ncols a"
  by (simp add: map_arr_def)

lemma rows_map_arr [simp]: "rows (map_arr f a) = map (map f) (rows a)"
  by (simp add: map_arr_def)

lemma nrows_map_arr [simp]: "nrows (map_arr f a) = nrows a"
  by (simp add: nrows_def)

lemma broadcast2_col_map:
  assumes "wf_arr a" and "rows a = map G zs"
  shows "broadcast2 f a (Arr 1 (map (\<lambda>z. [h z]) zs))
           = Inr (Arr (ncols a) (map (\<lambda>z. map (\<lambda>v. f v (h z)) (G z)) zs))"
proof -
  have "broadcast2 f a (Arr 1 (map (\<lambda>m. [m]) (map h zs)))
          = Inr (Arr (ncols a) (map2 (\<lambda>r m. map (\<lambda>v. f v m) r) (rows a) (map h zs)))"
    using assms by (intro broadcast2_col) (simp_all add: nrows_def)
  moreover have "map (\<lambda>m. [m]) (map h zs) = map (\<lambda>z. [h z]) zs"
    by simp
  moreover have "map2 (\<lambda>r m. map (\<lambda>v. f v m) r) (map G zs) (map h zs)
                   = map (\<lambda>z. map (\<lambda>v. f v (h z)) (G z)) zs"
    by (simp add: map2_map_map)
  ultimately show ?thesis
    by (simp only: assms(2))
qed

lemma exp_x_rows:
  assumes "wf_arr x" and "0 < ncols x"
  shows "exp_x x = Inr (Arr (ncols x) (map (\<lambda>r. map (\<lambda>v. exp (v - Max (set r))) r) (rows x)))"
proof -
  let ?M = "\<lambda>r::real list. Max (set r)"
  have m: "np_max x = Inr (Arr 1 (map (\<lambda>r. [?M r]) (rows x)))"
    using assms(2) by (simp add: np_max_def)
  have d: "broadcast2 (-) x (Arr 1 (map (\<lambda>r. [?M r]) (rows x)))
             = Inr (Arr (ncols x) (map (\<lambda>r. map (\<lambda>v. v - ?M r) (id r)) (rows x)))"
    using assms(1) by (intro broadcast2_col_map) simp_all
  have ex: "map_arr exp (Arr (ncols x) (map (\<lambda>r. map (\<lambda>v. v - ?M r) (id r)) (rows x)))
              = Arr (ncols x) (map (\<lambda>r. map (\<lambda>v. exp (v - ?M r)) r) (rows x))"
    by (simp add: map_arr_def comp_def)
  show ?thesis
    by (simp only: exp_x_def m and_then_Inr d ex)
qed

lemma softmax_rows:
  assumes "wf_arr x" and "0 < ncols x"
  shows "softmax x = Inr (Arr (ncols x) (map softmax_row (rows x)))"
proof -
  let ?M = "\<lambda>r::real list. Max (set r)"
  let ?E = "\<lambda>r. map (\<lambda>v. exp (v - ?M r)) r"
  define ex where "ex = Arr (ncols x) (map ?E (rows x))"
  have e: "exp_x x = Inr ex"
    unfolding ex_def using assms by (rule exp_x_rows)
  have wf_ex: "wf_arr ex"
    using assms(1) by (simp add: ex_def wf_arr_def)
  have s: "np_sum ex = Arr 1 (map (\<lambda>r. [sum_list (?E r)]) (rows x))"
    by (simp add: np_sum_def ex_def comp_def)
  have q: "broadcast2 (/) ex (np_sum ex)
             = Inr (Arr (ncols ex) (map (\<lambda>r. map (\<lambda>v. v / sum_list (?E r)) (?E r)) (rows x)))"
    unfolding s using wf_ex by (intro broadcast2_col_map) (simp_all add: ex_def)
  have "softmax x = broadcast2 (/) ex (np_sum ex)"
    by (simp only: softmax_def e and_then_Inr)
  also note q
  finally show ?thesis
    by (simp add: softmax_row_def ex_def)
qed





lemma length_softmax_row [simp]: "length (softmax_row r) = length r"
  by (simp add: softmax_row_def)

lemma softmax_row_shift:
  assumes "r \<noteq> []"
  shows "softmax_row r = map (\<lambda>v. exp v / sum_list (map exp r)) r"
proof -
  have "map (\<lambda>u. exp (u - Max (set r))) r = map (\<lambda>e. e / exp (Max (set r))) (map exp r)"
    by (simp add: exp_diff)
  then have "sum_list (map (\<lambda>u. exp (u - Max (set r))) r) = sum_list (map exp r) / exp (Max (set r))"
    by (simp only: sum_list_div_const)
  then show ?thesis
    by (simp add: softmax_row_def exp_diff)
qed


lemma map2_upt_nth:
  "length b = c \<Longrightarrow> map2 f (map F [0..<c]) b = map (\<lambda>j. f (F j) (b ! j)) [0..<c]"
  by (rule nth_equalityI) simp_all

lemma map2_nth_upt_l:
  "length g = length r \<Longrightarrow> map2 f g r = map (\<lambda>j. f (g ! j) (r ! j)) [0..<length r]"
  by (rule nth_equalityI) simp_all

lemma length_layer_norm_row [simp]: "length (layer_norm_row p r) = length r"
  by (simp add: layer_norm_row_def)

lemma length_affine [simp]: "length (affine p r) = ncols (lin_w p)"
  by (simp add: affine_def)

lemma layer_norm_rows:
  assumes "wf_arr x" and "wf_ln p (ncols x)"
  shows "layer_norm x p = Inr (Arr (ncols x) (map (layer_norm_row p) (rows x)))"
proof -
  let ?c = "ncols x"
  let ?D = "\<lambda>r. map (\<lambda>v. v - mean r) r"
  let ?G = "\<lambda>r. map2 (*) (ln_g p) (?D r)"
  let ?Q = "\<lambda>r. map (\<lambda>v. v / sqrt (var r + eps)) (?G r)"
  have len: "length (ln_g p) = ?c" "length (ln_b p) = ?c"
    using assms(2) by (simp_all add: wf_ln_def)
  have d: "broadcast2 (-) x (np_mean x) = Inr (Arr ?c (map (\<lambda>r. map (\<lambda>v. v - mean r) (id r)) (rows x)))"
    unfolding np_mean_def using assms(1) by (intro broadcast2_col_map) simp_all
  have wf_d: "wf_arr (Arr ?c (map ?D (rows x)))"
    using assms(1) by (simp add: wf_arr_def)
  have gd: "broadcast2 (*) (row_vec (ln_g p)) (Arr ?c (map ?D (rows x)))
              = Inr (Arr ?c (map ?G (rows x)))"
    using broadcast2_row_l [OF wf_d, of "ln_g p" "(*)"] len by (simp add: comp_def)
  have wf_gd: "wf_arr (Arr ?c (map ?G (rows x)))"
    using assms(1) len by (simp add: wf_arr_def)
  have sq: "map_arr sqrt (map_arr (\<lambda>v. v + eps) (np_var x))
              = Arr 1 (map (\<lambda>r. [sqrt (var r + eps)]) (rows x))"
    by (simp add: map_arr_def np_var_def)
  have q: "broadcast2 (/) (Arr ?c (map ?G (rows x))) (Arr 1 (map (\<lambda>r. [sqrt (var r + eps)]) (rows x)))
             = Inr (Arr (ncols (Arr ?c (map ?G (rows x)))) (map ?Q (rows x)))"
    using wf_gd by (intro broadcast2_col_map) simp_all
  have wf_q: "wf_arr (Arr ?c (map ?Q (rows x)))"
    using assms(1) len by (simp add: wf_arr_def)
  have r: "broadcast2 (+) (Arr ?c (map ?Q (rows x))) (row_vec (ln_b p))
             = Inr (Arr ?c (map (\<lambda>r. map2 (+) (?Q r) (ln_b p)) (rows x)))"
    using broadcast2_row_r [OF wf_q, of "ln_b p" "(+)"] len by (simp add: comp_def)
  have row: "map2 (+) (?Q r) (ln_b p) = layer_norm_row p r" if "r \<in> set (rows x)" for r
  proof -
    have "length r = ?c"
      using that assms(1) by (simp add: wf_arr_def)
    then show ?thesis
      using len by (intro nth_equalityI) (simp_all add: layer_norm_row_def)
  qed
  have "layer_norm x p = broadcast2 (+) (Arr ?c (map ?Q (rows x))) (row_vec (ln_b p))"
    using d gd q sq by (simp only: layer_norm_def Let_def and_then_Inr id_apply ndarray.sel)
  also note r
  finally show ?thesis
    using row by (simp cong: map_cong)
qed

lemma matmul_rows:
  "ncols a = nrows b \<Longrightarrow>
     matmul a b = Inr (Arr (ncols b) (map (\<lambda>r. map (\<lambda>j. dot r (col b j)) [0..<ncols b]) (rows a)))"
  by (simp add: matmul_def)

lemma linear_rows:
  assumes "ncols x = nrows (lin_w p)" and "length (lin_b p) = ncols (lin_w p)"
  shows "linear_np x p = Inr (Arr (ncols (lin_w p)) (map (affine p) (rows x)))"
proof -
  let ?c = "ncols (lin_w p)"
  let ?Y = "map (\<lambda>r. map (\<lambda>j. dot r (col (lin_w p) j)) [0..<?c]) (rows x)"
  have wf_y: "wf_arr (Arr ?c ?Y)"
    by (simp add: wf_arr_def)
  have "linear_np x p = broadcast2 (+) (Arr ?c ?Y) (row_vec (lin_b p))"
    using assms(1) by (simp add: linear_np_def matmul_rows)
  also have "\<dots> = Inr (Arr ?c (map (\<lambda>r. map2 (+) r (lin_b p)) ?Y))"
    using broadcast2_row_r [OF wf_y, of "lin_b p" "(+)"] assms(2) by simp
  finally show ?thesis
    using assms(2) by (simp add: affine_def comp_def map2_upt_nth)
qed

subsection \<open>Attention, the block and the stack of blocks\<close>

lemma map_upt_nth: "map (\<lambda>j. f (xs ! j)) [0..<length xs] = map f xs"
  by (rule nth_equalityI) simp_all

lemma nrows_transpose_arr [simp]: "nrows (transpose_arr a) = ncols a"
  by (simp add: transpose_arr_def)

lemma ncols_transpose_arr [simp]: "ncols (transpose_arr a) = nrows a"
  by (simp add: transpose_arr_def)

lemma wf_transpose_arr [simp]: "wf_arr (transpose_arr a)"
  by (simp add: transpose_arr_def wf_arr_def col_def nrows_def)

lemma col_transpose_arr:
  assumes "wf_arr k" and "j < nrows k"
  shows "col (transpose_arr k) j = rows k ! j"
proof -
  have len: "length (rows k ! j) = ncols k"
    using assms by (simp add: wf_arr_def nrows_def)
  have "col (transpose_arr k) j = map (\<lambda>i. (rows k ! j) ! i) [0..<ncols k]"
    using assms(2) by (simp add: col_def transpose_arr_def nrows_def)
  also have "\<dots> = rows k ! j"
    using map_nth [of "rows k ! j"] len by simp
  finally show ?thesis .
qed

lemma attention_rows:
  assumes "wf_arr q" and "wf_arr k" and "ncols q = ncols k" and "nrows k = nrows v"
    and "0 < nrows k"
  shows "attention q k v = Inr (Arr (ncols v) (attend (ncols v) (rows q) (rows k) (rows v)))"
proof -
  let ?n = "nrows k"
  let ?S = "\<lambda>r. map (\<lambda>kr. dot r kr / sqrt (real (ncols q))) (rows k)"
  have cols: "map (\<lambda>j. dot r (col (transpose_arr k) j)) [0..<?n] = map (dot r) (rows k)" for r
  proof -
    have "map (\<lambda>j. dot r (col (transpose_arr k) j)) [0..<?n] = map (\<lambda>j. dot r (rows k ! j)) [0..<?n]"
      using assms(2) by (intro map_cong) (simp_all add: col_transpose_arr)
    then show ?thesis
      by (simp add: nrows_def map_upt_nth)
  qed
  have s: "matmul q (transpose_arr k) = Inr (Arr ?n (map (\<lambda>r. map (dot r) (rows k)) (rows q)))"
    using assms(3) by (simp add: matmul_rows cols)
  have sc: "map_arr (\<lambda>e. e / sqrt (real (ncols q))) (Arr ?n (map (\<lambda>r. map (dot r) (rows k)) (rows q)))
              = Arr ?n (map ?S (rows q))"
    by (simp add: map_arr_def comp_def)
  have wf_sc: "wf_arr (Arr ?n (map ?S (rows q)))"
    by (simp add: wf_arr_def nrows_def)
  have sm: "softmax (Arr ?n (map ?S (rows q))) = Inr (Arr ?n (map (\<lambda>r. softmax_row (?S r)) (rows q)))"
    using softmax_rows [OF wf_sc] assms(5) by (simp add: comp_def)
  have w: "map (\<lambda>r. softmax_row (?S r)) (rows q) = attention_weights (rows q) (rows k)"
    unfolding attention_weights_def using assms(1) by (intro map_cong) (simp_all add: wf_arr_def)
  have "attention q k v = matmul (Arr ?n (attention_weights (rows q) (rows k))) v"
    by (simp only: attention_def s and_then_Inr sc sm w)
  also have "\<dots> = Inr (Arr (ncols v) (attend (ncols v) (rows q) (rows k) (rows v)))"
    using assms(4) by (simp add: matmul_rows attend_def col_def)
  finally show ?thesis .
qed

lemma length_attention_weights [simp]: "length (attention_weights Q K) = length Q"
  by (simp add: attention_weights_def)

lemma length_attend [simp]: "length (attend w Q K V) = length Q"
  by (simp add: attend_def)

lemma wf_attend: "wf_arr (Arr w (attend w Q K V))"
  by (simp add: wf_arr_def attend_def)

lemma collect_map_Inr: "collect (map (\<lambda>x. Inr (f x)) xs) = Inr (map f xs)"
  by (induction xs) simp_all

lemma collect_map_cong_Inr:
  "(\<And>x. x \<in> set xs \<Longrightarrow> g x = Inr (f x)) \<Longrightarrow> collect (map g xs) = Inr (map f xs)"
  by (induction xs) simp_all

lemma zip_map_same: "zip (map f xs) (map g xs) = map (\<lambda>x. (f x, g x)) xs"
  by (induction xs) simp_all

lemma sum_list_replicate_const: "(\<And>x. x \<in> set xs \<Longrightarrow> f x = (w::nat)) \<Longrightarrow> sum_list (map f xs) = length xs * w"
  by (induction xs) simp_all

lemma hstack_map:
  assumes "0 < n" and "\<And>h. h < n \<Longrightarrow> nrows (R h) = L" and "\<And>h. h < n \<Longrightarrow> ncols (R h) = w"
  shows "hstack (map R [0..<n])
           = Inr (Arr (n * w) (map (\<lambda>i. concat (map (\<lambda>h. rows (R h) ! i) [0..<n])) [0..<L]))"
proof -
  obtain m where n: "n = Suc m"
    using assms(1) by (cases n) auto
  have list: "map R [0..<n] = R 0 # map R [Suc 0..<n]"
    unfolding n by (simp add: upt_conv_Cons del: upt_Suc)
  have same: "\<forall>b \<in> set (map R [Suc 0..<n]). nrows b = nrows (R 0)"
    using assms(1,2) by auto
  have width: "sum_list (map ncols (map R [0..<n])) = n * w"
    using sum_list_replicate_const [of "[0..<n]" "\<lambda>h. ncols (R h)" w] assms(3) by (simp add: comp_def)
  have "hstack (map R [0..<n])
          = Inr (Arr (sum_list (map ncols (map R [0..<n])))
              (map (\<lambda>i. concat (map (\<lambda>b. rows b ! i) (map R [0..<n]))) [0..<nrows (R 0)]))"
    using same unfolding hstack_def list by simp
  then show ?thesis
    using assms(1,2) width by (simp add: comp_def)
qed


lemma length_chunk_chunk:
  assumes "length y = 3 * d" and "t < 3" and "n dvd d" and "h < n"
  shows "length (chunk (d div n) h (chunk d t y)) = d div n"
proof -
  have "Suc t * d \<le> 3 * d"
    using assms(2) by simp
  then have "length (chunk d t y) = d"
    using assms(1) by (intro length_chunk) simp
  then show ?thesis
    using chunk_bound [OF assms(3,4)] by (intro length_chunk) simp
qed

lemma wf_head_part:
  assumes "\<forall>y \<in> set Y. length y = 3 * d" and "t < 3" and "n dvd d" and "h < n"
  shows "wf_arr (Arr (d div n) (head_part d n t h Y))"
  using assms by (auto simp: wf_arr_def head_part_def intro!: length_chunk_chunk)

lemma length_head_part [simp]: "length (head_part d n t h Y) = length Y"
  by (simp add: head_part_def)

lemma upt_3: "[0..<3] = [0, 1, 2]"
  by (simp add: upt_rec)

lemma mha_rows:
  assumes "ncols x = d" and "0 < nrows x" and "wf_attn p d" and "0 < n" and "n dvd d"
  shows "mha x p n = Inr (Arr d (mha_spec d p n (rows x)))"
proof -
  let ?w = "d div n"
  define Y where "Y = map (affine (attn_c_attn p)) (rows x)"
  define H where "H t h = Arr ?w (head_part d n t h Y)" for t h
  define R where "R h = Arr ?w (attend ?w (head_part d n 0 h Y) (head_part d n 1 h Y)
                                  (head_part d n 2 h Y))" for h
  define merged where "merged = map (\<lambda>i. concat (map (\<lambda>h. rows (R h) ! i) [0..<n])) [0..<length (rows x)]"
  have shapes: "nrows (lin_w (attn_c_attn p)) = d" "ncols (lin_w (attn_c_attn p)) = 3 * d"
      "length (lin_b (attn_c_attn p)) = 3 * d" "nrows (lin_w (attn_c_proj p)) = d"
      "ncols (lin_w (attn_c_proj p)) = d" "length (lin_b (attn_c_proj p)) = d"
    using assms(3) by (simp_all add: wf_attn_def wf_linear_def)
  have lenY: "\<forall>y \<in> set Y. length y = 3 * d"
    by (simp add: Y_def shapes)
  have x1: "linear_np x (attn_c_attn p) = Inr (Arr (3 * d) Y)"
    using linear_rows [of x "attn_c_attn p"] assms(1) shapes by (simp add: Y_def)
  have qkv: "np_split (Arr (3 * d) Y) 3 = Inr (map (\<lambda>t. Arr d (map (chunk d t) Y)) [0..<3])"
    by (simp add: np_split_def)
  have part: "np_split (Arr d (map (chunk d t) Y)) n = Inr (map (H t) [0..<n])" for t
    using assms(4,5) by (simp add: np_split_def H_def head_part_def comp_def)
  have heads: "split_heads (map (\<lambda>t. Arr d (map (chunk d t) Y)) [0..<3]) n
                 = Inr (map (\<lambda>t. map (H t) [0..<n]) [0..<3])"
    by (simp add: split_heads_def comp_def part collect_map_Inr)
  have zipped: "zip_heads (map (\<lambda>t. map (H t) [0..<n]) [0..<3])
                  = map (\<lambda>h. (H 0 h, H 1 h, H 2 h)) [0..<n]"
    by (simp add: zip_heads_def upt_3 zip_map_same)
  have att: "attention (H 0 h) (H 1 h) (H 2 h) = Inr (R h)" if "h \<in> set [0..<n]" for h
  proof -
    have h: "h < n"
      using that by simp
    have "wf_arr (H 0 h)" "wf_arr (H 1 h)"
      using wf_head_part [OF lenY _ assms(5) h] by (simp_all add: H_def)
    moreover have "0 < nrows (H 1 h)"
      using assms(2) by (simp add: H_def Y_def nrows_def)
    ultimately show ?thesis
      using attention_rows [of "H 0 h" "H 1 h" "H 2 h"] by (simp add: H_def R_def)
  qed
  have outs: "collect (map (\<lambda>(q, k, v). attention q k v) (map (\<lambda>h. (H 0 h, H 1 h, H 2 h)) [0..<n]))
                = Inr (map R [0..<n])"
  proof -
    have "collect (map (\<lambda>h. attention (H 0 h) (H 1 h) (H 2 h)) [0..<n]) = Inr (map R [0..<n])"
      by (rule collect_map_cong_Inr) (rule att)
    then show ?thesis
      by (simp add: comp_def)
  qed
  have stack: "hstack (map R [0..<n]) = Inr (Arr (n * ?w) merged)"
    unfolding merged_def using assms(4)
    by (intro hstack_map) (simp_all add: R_def Y_def)
  have nw: "n * ?w = d"
    using assms(5) by simp
  have out: "linear_np (Arr d merged) (attn_c_proj p) = Inr (Arr d (map (affine (attn_c_proj p)) merged))"
    using linear_rows [of "Arr d merged" "attn_c_proj p"] shapes by simp
  have "mha x p n = Inr (Arr d (map (affine (attn_c_proj p)) merged))"
    by (simp only: mha_def x1 and_then_Inr qkv heads zipped outs stack nw out)
  moreover have "mha_spec d p n (rows x) = map (affine (attn_c_proj p)) merged"
    by (simp add: mha_spec_def Let_def merged_def R_def Y_def comp_def)
  ultimately show ?thesis
    by simp
qed


lemma length_mha_spec [simp]: "length (mha_spec d p n X) = length X"
  by (simp add: mha_spec_def Let_def)

lemma row_mha_spec: "r \<in> set (mha_spec d p n X) \<Longrightarrow> length r = ncols (lin_w (attn_c_proj p))"
  by (auto simp: mha_spec_def Let_def)

lemma length_ffn_spec [simp]: "length (ffn_spec p X) = length X"
  by (simp add: ffn_spec_def)

lemma row_ffn_spec: "r \<in> set (ffn_spec p X) \<Longrightarrow> length r = ncols (lin_w (mlp_c_proj p))"
  by (auto simp: ffn_spec_def)

lemma length_add_rows [simp]: "length (add_rows X Y) = min (length X) (length Y)"
  by (simp add: add_rows_def)

lemma row_add_rows:
  assumes "\<forall>r \<in> set X. length r = d" and "\<forall>r \<in> set Y. length r = d" and "r \<in> set (add_rows X Y)"
  shows "length r = d"
proof -
  obtain a b where "(a, b) \<in> set (zip X Y)" "r = map2 (+) a b"
    using assms(3) by (auto simp: add_rows_def)
  then show ?thesis
    using assms(1,2) by (auto elim!: in_set_zipE)
qed

lemma ffn_rows:
  assumes "ncols x = d" and "wf_mlp p d"
  shows "ffn x p = Inr (Arr d (ffn_spec p (rows x)))"
proof -
  let ?m = "ncols (lin_w (mlp_c_fc p))"
  have shapes: "nrows (lin_w (mlp_c_fc p)) = d" "length (lin_b (mlp_c_fc p)) = ?m"
      "nrows (lin_w (mlp_c_proj p)) = ?m" "ncols (lin_w (mlp_c_proj p)) = d"
      "length (lin_b (mlp_c_proj p)) = d"
    using assms(2) by (simp_all add: wf_mlp_def wf_linear_def)
  have h: "linear_np x (mlp_c_fc p) = Inr (Arr ?m (map (affine (mlp_c_fc p)) (rows x)))"
    using linear_rows [of x "mlp_c_fc p"] assms(1) shapes by simp
  have g: "gelu (Arr ?m (map (affine (mlp_c_fc p)) (rows x)))
             = Arr ?m (map (\<lambda>r. map gelu1 (affine (mlp_c_fc p) r)) (rows x))"
    by (simp add: gelu_def map_arr_def)
  have out: "linear_np (Arr ?m (map (\<lambda>r. map gelu1 (affine (mlp_c_fc p) r)) (rows x))) (mlp_c_proj p)
               = Inr (Arr d (ffn_spec p (rows x)))"
    using linear_rows [of "Arr ?m (map (\<lambda>r. map gelu1 (affine (mlp_c_fc p) r)) (rows x))" "mlp_c_proj p"]
      shapes by (simp add: ffn_spec_def comp_def)
  show ?thesis
    by (simp only: ffn_def h and_then_Inr g out)
qed

lemma residual_rows:
  assumes "wf_arr x" and "ncols x = d" and "length Y = nrows x" and "\<forall>r \<in> set Y. length r = d"
  shows "broadcast2 (+) x (Arr d Y) = Inr (Arr d (add_rows (rows x) Y))"
  using broadcast2_same [of x "Arr d Y" "(+)"] assms
  by (simp add: wf_arr_def add_rows_def)

lemma length_block_spec [simp]: "length (block_spec d n p X) = length X"
  by (simp add: block_spec_def Let_def)

lemma transformer_block_rows:
  assumes "wf_arr x" and "ncols x = d" and "0 < nrows x" and "wf_block p d" and "0 < n"
    and "n dvd d"
  shows "transformer_block x p n = Inr (Arr d (block_spec d n p (rows x)))"
    and "wf_arr (Arr d (block_spec d n p (rows x)))"
proof -
  define M where "M = mha_spec d (attn p) n (rows x)"
  define S1 where "S1 = add_rows (rows x) M"
  define X1 where "X1 = map (layer_norm_row (ln_1 p)) S1"
  define F where "F = ffn_spec (mlp p) X1"
  define S2 where "S2 = add_rows X1 F"
  have parts: "wf_mlp (mlp p) d" "wf_attn (attn p) d" "wf_ln (ln_1 p) d" "wf_ln (ln_2 p) d"
    using assms(4) by (simp_all add: wf_block_def)
  have rowsx: "\<forall>r \<in> set (rows x). length r = d"
    using assms(1,2) by (simp add: wf_arr_def)
  have a: "mha x (attn p) n = Inr (Arr d M)"
    unfolding M_def using assms(2,3) parts(2) assms(5,6) by (rule mha_rows)
  have rowsM: "\<forall>r \<in> set M. length r = d"
    using parts(2) by (auto simp: M_def wf_attn_def wf_linear_def dest: row_mha_spec)
  have s1: "broadcast2 (+) x (Arr d M) = Inr (Arr d S1)"
    unfolding S1_def using assms(1,2) rowsM by (intro residual_rows) (simp_all add: M_def nrows_def)
  have rowsS1: "\<forall>r \<in> set S1. length r = d"
    unfolding S1_def using rowsx rowsM by (blast intro: row_add_rows)
  have x1: "layer_norm (Arr d S1) (ln_1 p) = Inr (Arr d X1)"
    using layer_norm_rows [of "Arr d S1" "ln_1 p"] rowsS1 parts(3) by (simp add: wf_arr_def X1_def)
  have rowsX1: "\<forall>r \<in> set X1. length r = d"
    using rowsS1 by (auto simp: X1_def)
  have f: "ffn (Arr d X1) (mlp p) = Inr (Arr d F)"
    using ffn_rows [of "Arr d X1" d "mlp p"] parts(1) by (simp add: F_def)
  have rowsF: "\<forall>r \<in> set F. length r = d"
    using parts(1) by (auto simp: F_def wf_mlp_def wf_linear_def dest: row_ffn_spec)
  have s2: "broadcast2 (+) (Arr d X1) (Arr d F) = Inr (Arr d S2)"
    using residual_rows [of "Arr d X1" d F] rowsX1 rowsF by (simp add: wf_arr_def S2_def F_def)
  have rowsS2: "\<forall>r \<in> set S2. length r = d"
    unfolding S2_def using rowsX1 rowsF by (blast intro: row_add_rows)
  have out: "layer_norm (Arr d S2) (ln_2 p) = Inr (Arr d (map (layer_norm_row (ln_2 p)) S2))"
    using layer_norm_rows [of "Arr d S2" "ln_2 p"] rowsS2 parts(4) by (simp add: wf_arr_def)
  have spec: "block_spec d n p (rows x) = map (layer_norm_row (ln_2 p)) S2"
    by (simp add: block_spec_def Let_def S2_def F_def X1_def S1_def M_def)
  show "transformer_block x p n = Inr (Arr d (block_spec d n p (rows x)))"
    by (simp only: transformer_block_def a and_then_Inr s1 x1 f s2 out spec)
  show "wf_arr (Arr d (block_spec d n p (rows x)))"
    using rowsS2 by (simp add: spec wf_arr_def)
qed

lemma run_blocks_rows:
  assumes "list_all (\<lambda>b. wf_block b d) bs" and "0 < n" and "n dvd d"
    and "wf_arr x" and "ncols x = d" and "0 < nrows x"
  shows "run_blocks bs n x = Inr (Arr d (foldl (\<lambda>X b. block_spec d n b X) (rows x) bs))"
  using assms
proof (induction bs arbitrary: x)
  case Nil
  then show ?case
    by (cases x) simp
next
  case (Cons b bs)
  let ?y = "Arr d (block_spec d n b (rows x))"
  have b: "wf_block b d" and bs: "list_all (\<lambda>b. wf_block b d) bs"
    using Cons.prems(1) by simp_all
  have step: "transformer_block x b n = Inr ?y" and wf: "wf_arr ?y"
    using transformer_block_rows [OF Cons.prems(4,5,6) b Cons.prems(2,3)] by simp_all
  have "0 < nrows ?y"
    using Cons.prems(6) by (simp add: nrows_def)
  then have "run_blocks bs n ?y = Inr (Arr d (foldl (\<lambda>X b. block_spec d n b X) (rows ?y) bs))"
    using Cons.IH [OF bs Cons.prems(2,3) wf] by simp
  then show ?case
    by (simp add: step)
qed

subsection \<open>Indexing and the encoder\<close>

lemma norm_index_nonneg: "0 \<le> i \<Longrightarrow> norm_index n i = nat i"
  by (simp add: norm_index_def)

lemma norm_index_int [simp]: "norm_index n (int k) = k"
  by (simp add: norm_index_def)

lemma norm_index_less: "in_bounds n i \<Longrightarrow> norm_index n i < n"
  by (auto simp: in_bounds_def norm_index_def)

lemma in_bounds_norm_index: "in_bounds n i \<Longrightarrow> in_bounds n (int (norm_index n i))"
  by (auto simp: in_bounds_def norm_index_def)

lemma take_rows_ok:
  "list_all (in_bounds (nrows t)) ids \<Longrightarrow>
     take_rows t ids = Inr (Arr (ncols t) (map (\<lambda>i. rows t ! norm_index (nrows t) i) ids))"
  by (simp add: take_rows_def select_rows_def)

lemma take_rows_fail:
  "list_all fits_int64 ids \<Longrightarrow> \<not> list_all (in_bounds (nrows t)) ids \<Longrightarrow>
     take_rows t ids = Inl IndexError"
  by (simp add: take_rows_def select_rows_def index_array_def)

lemma take_rows_normalised:
  assumes "list_all (in_bounds (nrows t)) ids"
  shows "take_rows t (map (\<lambda>i. int (norm_index (nrows t) i)) ids) = take_rows t ids"
proof -
  have "list_all (in_bounds (nrows t)) (map (\<lambda>i. int (norm_index (nrows t) i)) ids)"
    using assms by (simp add: list_all_iff in_bounds_norm_index)
  then show ?thesis
    using assms by (simp add: take_rows_ok comp_def)
qed

lemma bert_normalised:
  assumes "list_all (in_bounds (nrows (wte p))) token_ids"
    and "list_all (in_bounds (nrows (wtte p))) segment_ids"
  shows "bert (map (\<lambda>i. int (norm_index (nrows (wte p)) i)) token_ids)
              (map (\<lambda>i. int (norm_index (nrows (wtte p)) i)) segment_ids) p n
           = bert token_ids segment_ids p n"
  by (simp add: bert_def take_rows_normalised [OF assms(1)] take_rows_normalised [OF assms(2)])

lemma bert_token_out_of_bounds:
  "list_all fits_int64 token_ids \<Longrightarrow> \<not> list_all (in_bounds (nrows (wte p))) token_ids \<Longrightarrow>
     bert token_ids segment_ids p n = Inl IndexError"
  by (simp add: bert_def take_rows_fail)

lemma row_in_table:
  assumes "wf_arr t" and "k < nrows t"
  shows "length (rows t ! k) = ncols t"
  using assms by (simp add: wf_arr_def nrows_def)

lemma embed_rows:
  assumes "wf_params p d" and "valid_tokens p token_ids segment_ids"
  shows "and_then (take_rows (wte p) token_ids) (\<lambda>t.
         and_then (take_rows (wpe p) (map int [0..<length token_ids])) (\<lambda>pos.
         and_then (broadcast2 (+) t pos) (\<lambda>tp.
         and_then (take_rows (wtte p) segment_ids) (\<lambda>seg.
           broadcast2 (+) tp seg))))
         = Inr (Arr d (embed_spec p token_ids segment_ids))"
proof -
  let ?L = "length token_ids"
  define T where "T = map (\<lambda>i. rows (wte p) ! norm_index (nrows (wte p)) i) token_ids"
  define P where "P = map (\<lambda>i. rows (wpe p) ! norm_index (nrows (wpe p)) i) (map int [0..<?L])"
  define S where "S = map (\<lambda>i. rows (wtte p) ! norm_index (nrows (wtte p)) i) segment_ids"
  have tables: "wf_arr (wte p)" "ncols (wte p) = d" "wf_arr (wpe p)" "ncols (wpe p) = d"
      "wf_arr (wtte p)" "ncols (wtte p) = d" "nrows (wtte p) = 2"
    using assms(1) by (simp_all add: wf_params_def)
  have valid: "length segment_ids = ?L" "?L \<le> nrows (wpe p)"
      "\<forall>t \<in> set token_ids. 0 \<le> t \<and> t < int (nrows (wte p))"
      "\<forall>s \<in> set segment_ids. s = 0 \<or> s = 1"
    using assms(2) by (simp_all add: valid_tokens_def list_all_iff)
  have tok_b: "list_all (in_bounds (nrows (wte p))) token_ids"
    using valid(3) by (auto simp: list_all_iff in_bounds_def)
  have pos_b: "list_all (in_bounds (nrows (wpe p))) (map int [0..<?L])"
    using valid(2) by (auto simp: list_all_iff in_bounds_def)
  have seg_b: "list_all (in_bounds (nrows (wtte p))) segment_ids"
    using valid(4) tables(7) by (auto simp: list_all_iff in_bounds_def)
  have t: "take_rows (wte p) token_ids = Inr (Arr d T)"
    using take_rows_ok [OF tok_b] tables by (simp add: T_def)
  have pos: "take_rows (wpe p) (map int [0..<?L]) = Inr (Arr d P)"
    using take_rows_ok [OF pos_b] tables by (simp add: P_def)
  have seg: "take_rows (wtte p) segment_ids = Inr (Arr d S)"
    using take_rows_ok [OF seg_b] tables by (simp add: S_def)
  have rowsT: "\<forall>r \<in> set T. length r = d"
    using tok_b tables(1,2) by (auto simp: T_def list_all_iff intro!: row_in_table [THEN trans] norm_index_less)
  have rowsP: "\<forall>r \<in> set P. length r = d"
    using valid(2) tables(3,4) by (auto simp: P_def intro!: row_in_table [THEN trans])
  have rowsS: "\<forall>r \<in> set S. length r = d"
    using seg_b tables(5,6) by (auto simp: S_def list_all_iff intro!: row_in_table [THEN trans] norm_index_less)
  have tp: "broadcast2 (+) (Arr d T) (Arr d P) = Inr (Arr d (add_rows T P))"
    using residual_rows [of "Arr d T" d P] rowsT rowsP by (simp add: wf_arr_def T_def P_def)
  have rowsTP: "\<forall>r \<in> set (add_rows T P). length r = d"
    using rowsT rowsP by (blast intro: row_add_rows)
  have x: "broadcast2 (+) (Arr d (add_rows T P)) (Arr d S) = Inr (Arr d (add_rows (add_rows T P) S))"
    using residual_rows [of "Arr d (add_rows T P)" d S] rowsTP rowsS valid(1)
    by (simp add: wf_arr_def T_def P_def S_def)
  have "add_rows (add_rows T P) S = embed_spec p token_ids segment_ids"
  proof (rule nth_equalityI)
    show "length (add_rows (add_rows T P) S) = length (embed_spec p token_ids segment_ids)"
      using valid(1) by (simp add: T_def P_def S_def embed_spec_def)
  next
    fix i
    assume "i < length (add_rows (add_rows T P) S)"
    then have i: "i < ?L"
      by (simp add: T_def)
    have ti: "T ! i = rows (wte p) ! nat (token_ids ! i)" "length (T ! i) = d"
      using i valid(3) rowsT by (simp_all add: T_def norm_index_nonneg)
    have pi: "P ! i = rows (wpe p) ! i" "length (P ! i) = d"
      using i rowsP by (simp_all add: P_def)
    have "segment_ids ! i \<in> set segment_ids"
      using i valid(1) by simp
    then have "0 \<le> segment_ids ! i"
      using valid(4) by auto
    then have si1: "S ! i = rows (wtte p) ! nat (segment_ids ! i)"
      using i valid(1) by (simp add: S_def norm_index_nonneg)
    have "i < length S"
      using i valid(1) by (simp add: S_def)
    then have si2: "length (S ! i) = d"
      using rowsS by simp
    note si = si1 si2
    have "map2 (+) (map2 (+) (T ! i) (P ! i)) (S ! i)
            = map (\<lambda>j. T ! i ! j + P ! i ! j + S ! i ! j) [0..<d]"
      using ti(2) pi(2) si(2) by (intro nth_equalityI) simp_all
    then show "add_rows (add_rows T P) S ! i = embed_spec p token_ids segment_ids ! i"
      using i valid(1) ti(1) pi(1) si(1) tables(2)
      by (simp add: add_rows_def embed_spec_def T_def P_def S_def)
  qed
  then show ?thesis
    by (simp only: t pos seg tp x and_then_Inr)
qed

lemma bert_rows:
  assumes "wf_params p d" and "valid_tokens p token_ids segment_ids" and "0 < n" and "n dvd d"
  shows "bert token_ids segment_ids p n = Inr (Arr d (encoder_spec d n p token_ids segment_ids))"
proof -
  define E where "E = embed_spec p token_ids segment_ids"
  have rowsE: "\<forall>r \<in> set E. length r = d"
    using assms(1) by (auto simp: E_def embed_spec_def wf_params_def)
  have lenE: "0 < length E"
    using assms(2) by (simp add: E_def embed_spec_def valid_tokens_def)
  have emb: "and_then (take_rows (wte p) token_ids) (\<lambda>t.
         and_then (take_rows (wpe p) (map int [0..<length token_ids])) (\<lambda>pos.
         and_then (broadcast2 (+) t pos) (\<lambda>tp.
         and_then (take_rows (wtte p) segment_ids) (\<lambda>seg.
           broadcast2 (+) tp seg)))) = Inr (Arr d E)"
    unfolding E_def using assms(1,2) by (rule embed_rows)
  have ln: "layer_norm (Arr d E) (ln_0 p) = Inr (Arr d (map (layer_norm_row (ln_0 p)) E))"
    using layer_norm_rows [of "Arr d E" "ln_0 p"] rowsE assms(1) by (simp add: wf_arr_def wf_params_def)
  have run: "run_blocks (blocks p) n (Arr d (map (layer_norm_row (ln_0 p)) E))
               = Inr (Arr d (encoder_spec d n p token_ids segment_ids))"
    using run_blocks_rows [of d "blocks p" n "Arr d (map (layer_norm_row (ln_0 p)) E)"]
      assms(1,3,4) rowsE lenE
    by (simp add: wf_params_def wf_arr_def encoder_spec_def E_def nrows_def)
  have "bert token_ids segment_ids p n
          = and_then (and_then (take_rows (wte p) token_ids) (\<lambda>t.
         and_then (take_rows (wpe p) (map int [0..<length token_ids])) (\<lambda>pos.
         and_then (broadcast2 (+) t pos) (\<lambda>tp.
         and_then (take_rows (wtte p) segment_ids) (\<lambda>seg.
           broadcast2 (+) tp seg))))) (\<lambda>x.
             and_then (layer_norm x (ln_0 p)) (run_blocks (blocks p) n))"
    by (simp add: bert_def and_then_def split: sum.splits)
  then show ?thesis
    by (simp only: emb and_then_Inr ln run)
qed

subsection \<open>The concrete parameter tree\<close>

lemma wf_tiny_params: "wf_params tiny_params 2"
  by (simp add: wf_params_def tiny_params_def tiny_block_def tiny_attn_def tiny_mlp_def tiny_ln_def
      wf_block_def wf_attn_def wf_mlp_def wf_ln_def wf_linear_def wf_arr_def)

lemma wf_tiny_block: "wf_block tiny_block 2"
  by (simp add: tiny_block_def tiny_attn_def tiny_mlp_def tiny_ln_def
      wf_block_def wf_attn_def wf_mlp_def wf_ln_def wf_linear_def wf_arr_def)

lemma valid_tiny_tokens: "valid_tokens tiny_params [2, 0] [0, 1]"
  by (simp add: valid_tokens_def tiny_params_def)

lemma embed_tiny: "embed_spec tiny_params [2, 0] [0, 1] = [[1, 1], [2, 1]]"
  by (simp add: embed_spec_def tiny_params_def upt_rec numeral_2_eq_2)

lemma foldl_blocks_shape:
  assumes "list_all (\<lambda>b. wf_block b d) bs" and "0 < n" and "n dvd d"
    and "wf_arr (Arr d X)" and "0 < length X"
  shows "wf_arr (Arr d (foldl (\<lambda>X b. block_spec d n b X) X bs))
       \<and> length (foldl (\<lambda>X b. block_spec d n b X) X bs) = length X"
  using assms
proof (induction bs arbitrary: X)
  case Nil
  then show ?case
    by simp
next
  case (Cons b bs)
  have b: "wf_block b d" and bs: "list_all (\<lambda>b. wf_block b d) bs"
    using Cons.prems(1) by simp_all
  have wf: "wf_arr (Arr d (block_spec d n b X))"
    using transformer_block_rows(2) [of "Arr d X" d b n] Cons.prems(2-5) b by simp
  have "0 < length (block_spec d n b X)"
    using Cons.prems(5) by simp
  from Cons.IH [OF bs Cons.prems(2,3) wf this] show ?case
    by simp
qed

subsection \<open>Ids out of range\<close>

lemma take_rows_uint64_wrap:
  "take_rows (wtte tiny_params) [2 ^ 64 - 1] = Inr (Arr 2 [[0, 1]])"
  by (simp add: take_rows_def select_rows_def index_array_def in_bounds_def norm_index_def
      fits_int64_def fits_uint64_def wrap64_def tiny_params_def)

lemma bert_segment_out_of_bounds:
  "list_all fits_int64 segment_ids \<Longrightarrow> \<not> list_all (in_bounds (nrows (wtte p))) segment_ids \<Longrightarrow>
     \<exists>e. bert token_ids segment_ids p n = Inl e"
  by (simp add: bert_def and_then_def take_rows_fail split: sum.splits)

subsection \<open>The parameter tree builder\<close>

lemma rows_transpose_arr: "rows (transpose_arr a) = map (col a) [0..<ncols a]"
  by (simp add: transpose_arr_def)

lemma hstack_transposes:
  "hstack [transpose_arr a, transpose_arr b, transpose_arr c]
     = (if ncols b = ncols a \<and> ncols c = ncols a
        then Inr (Arr (nrows a + nrows b + nrows c)
               (map (\<lambda>i. col a i @ col b i @ col c i) [0..<ncols a]))
        else Inl ValueError)"
  by (simp add: hstack_def rows_transpose_arr)

lemma get_mat_Some [simp]: "matrices model key = Some m \<Longrightarrow> get_mat model key = Inr m"
  by (simp add: get_mat_def)

lemma get_mat_None [simp]: "matrices model key = None \<Longrightarrow> get_mat model key = Inl (KeyError key)"
  by (simp add: get_mat_def)

lemma get_vec_Some [simp]: "vectors model key = Some v \<Longrightarrow> get_vec model key = Inr v"
  by (simp add: get_vec_def)

lemma get_vec_None [simp]: "vectors model key = None \<Longrightarrow> get_vec model key = Inl (KeyError key)"
  by (simp add: get_vec_def)

lemma load_block_outcome:
  assumes "qkv_aligned_at model i"
  shows "case load_block model i of
           Inl e \<Rightarrow> (\<exists>key. e = KeyError key
                       \<and> (key \<in> set (map (layer_key i) layer_matrix_names) \<and> matrices model key = None
                          \<or> key \<in> set (map (layer_key i) layer_vector_names) \<and> vectors model key = None))
         | Inr b \<Rightarrow> (\<forall>name \<in> set layer_matrix_names. matrices model (layer_key i name) \<noteq> None)
                    \<and> (\<forall>name \<in> set layer_vector_names. vectors model (layer_key i name) \<noteq> None)"
  unfolding load_block_def layer_matrix_names_def layer_vector_names_def
  apply (insert assms [unfolded qkv_aligned_at_def])
  apply (cases "matrices model (layer_key i ''attention.self.query.weight'')"; simp add: hstack_transposes)
  apply (cases "vectors model (layer_key i ''attention.self.query.bias'')"; simp add: hstack_transposes)
  apply (cases "matrices model (layer_key i ''attention.self.key.weight'')"; simp add: hstack_transposes)
  apply (cases "vectors model (layer_key i ''attention.self.key.bias'')"; simp add: hstack_transposes)
  apply (cases "matrices model (layer_key i ''attention.self.value.weight'')"; simp add: hstack_transposes)
  apply (cases "vectors model (layer_key i ''attention.self.value.bias'')"; simp add: hstack_transposes)
  apply (cases "matrices model (layer_key i ''attention.output.dense.weight'')"; simp add: hstack_transposes)
  apply (cases "vectors model (layer_key i ''attention.output.dense.bias'')"; simp add: hstack_transposes)
  apply (cases "vectors model (layer_key i ''attention.output.LayerNorm.weight'')"; simp add: hstack_transposes)
  apply (cases "vectors model (layer_key i ''attention.output.LayerNorm.bias'')"; simp add: hstack_transposes)
  apply (cases "matrices model (layer_key i ''intermediate.dense.weight'')"; simp add: hstack_transposes)
  apply (cases "vectors model (layer_key i ''intermediate.dense.bias'')"; simp add: hstack_transposes)
  apply (cases "matrices model (layer_key i ''output.dense.weight'')"; simp add: hstack_transposes)
  apply (cases "vectors model (layer_key i ''output.dense.bias'')"; simp add: hstack_transposes)
  apply (cases "vectors model (layer_key i ''output.LayerNorm.weight'')"; simp add: hstack_transposes)
  apply (cases "vectors model (layer_key i ''output.LayerNorm.bias'')"; simp add: hstack_transposes)
  done


lemma collect_outcome:
  "case collect rs of Inl e \<Rightarrow> (\<exists>r \<in> set rs. r = Inl e) | Inr vs \<Rightarrow> rs = map Inr vs"
  by (induction rs) (auto split: sum.splits)

lemma missing_layer_matrix:
  "i < n_layers \<Longrightarrow> key \<in> set (map (layer_key i) layer_matrix_names) \<Longrightarrow>
     matrices model key = None \<Longrightarrow> missing model key"
  by (auto simp: missing_def expected_matrices_def)

lemma missing_layer_vector:
  "i < n_layers \<Longrightarrow> key \<in> set (map (layer_key i) layer_vector_names) \<Longrightarrow>
     vectors model key = None \<Longrightarrow> missing model key"
  by (auto simp: missing_def expected_vectors_def)

lemma blocks_outcome:
  assumes "qkv_aligned model"
  shows "case collect (map (load_block model) [0..<n_layers]) of
           Inl e \<Rightarrow> (\<exists>key. e = KeyError key \<and> missing model key)
         | Inr bs \<Rightarrow> length bs = n_layers
             \<and> (\<forall>i < n_layers. load_block model i = Inr (bs ! i))
             \<and> (\<forall>i < n_layers.
                   (\<forall>name \<in> set layer_matrix_names. matrices model (layer_key i name) \<noteq> None)
                 \<and> (\<forall>name \<in> set layer_vector_names. vectors model (layer_key i name) \<noteq> None))"
proof -
  have aligned: "qkv_aligned_at model i" if "i < n_layers" for i
    using assms that by (simp add: qkv_aligned_def list_all_iff)
  show ?thesis
  proof (cases "collect (map (load_block model) [0..<n_layers])")
    case (Inl e)
    then obtain i where i: "i < n_layers" "load_block model i = Inl e"
      using collect_outcome [of "map (load_block model) [0..<n_layers]"] by auto
    then obtain key where "e = KeyError key"
      "key \<in> set (map (layer_key i) layer_matrix_names) \<and> matrices model key = None
       \<or> key \<in> set (map (layer_key i) layer_vector_names) \<and> vectors model key = None"
      using load_block_outcome [OF aligned [OF i(1)]] by auto
    then have "e = KeyError key \<and> missing model key"
      using i(1) missing_layer_matrix missing_layer_vector by blast
    then show ?thesis
      using Inl by auto
  next
    case (Inr bs)
    then have eq: "map (load_block model) [0..<n_layers] = map Inr bs"
      using collect_outcome [of "map (load_block model) [0..<n_layers]"] by simp
    then have len: "length bs = n_layers"
      using length_map [of "load_block model" "[0..<n_layers]"] by simp
    have nth: "load_block model i = Inr (bs ! i)" if "i < n_layers" for i
      using arg_cong [OF eq, of "\<lambda>l. l ! i"] that len by simp
    have "(\<forall>name \<in> set layer_matrix_names. matrices model (layer_key i name) \<noteq> None)
        \<and> (\<forall>name \<in> set layer_vector_names. vectors model (layer_key i name) \<noteq> None)"
      if "i < n_layers" for i
      using load_block_outcome [OF aligned [OF that]] nth [OF that] by simp
    then show ?thesis
      using Inr len nth by simp
  qed
qed

lemma load_outcome:
  assumes "qkv_aligned model"
  shows "case load_encoder_hparams_and_params model of
           Inl e \<Rightarrow> (\<exists>key. e = KeyError key \<and> missing model key)
         | Inr (hp, ps) \<Rightarrow>
             (\<forall>key. \<not> missing model key)
           \<and> hp = \<lparr>hp_n_head = 12, hp_n_ctx = 1024\<rparr>
           \<and> length (blocks ps) = n_layers
           \<and> (\<forall>i < n_layers. load_block model i = Inr (blocks ps ! i))
           \<and> matrices model (prefix @ ''embeddings.word_embeddings.weight'') = Some (wte ps)
           \<and> matrices model (prefix @ ''embeddings.position_embeddings.weight'') = Some (wpe ps)
           \<and> matrices model (prefix @ ''embeddings.token_type_embeddings.weight'') = Some (wtte ps)
           \<and> vectors model (prefix @ ''embeddings.LayerNorm.weight'') = Some (ln_g (ln_0 ps))
           \<and> vectors model (prefix @ ''embeddings.LayerNorm.bias'') = Some (ln_b (ln_0 ps))
           \<and> (\<exists>w. matrices model ''pooler.dense.weight'' = Some w
                  \<and> lin_w (pooler ps) = transpose_arr w)
           \<and> vectors model ''pooler.dense.bias'' = Some (lin_b (pooler ps))"
  unfolding load_encoder_hparams_and_params_def
  apply (insert blocks_outcome [OF assms])
  apply (cases "matrices model (prefix @ ''embeddings.word_embeddings.weight'')";
      simp add: missing_def expected_matrices_def)
  apply (cases "matrices model (prefix @ ''embeddings.position_embeddings.weight'')";
      simp add: missing_def expected_matrices_def)
  apply (cases "matrices model (prefix @ ''embeddings.token_type_embeddings.weight'')";
      simp add: missing_def expected_matrices_def)
  apply (cases "vectors model (prefix @ ''embeddings.LayerNorm.weight'')";
      simp add: missing_def expected_vectors_def)
  apply (cases "vectors model (prefix @ ''embeddings.LayerNorm.bias'')";
      simp add: missing_def expected_vectors_def)
  apply (cases "collect (map (load_block model) [0..<n_layers])"; simp)
  apply (cases "matrices model ''pooler.dense.weight''";
      simp add: missing_def expected_matrices_def)
  apply (cases "vectors model ''pooler.dense.bias''";
      simp add: missing_def expected_vectors_def)
  apply (auto simp: missing_def expected_matrices_def expected_vectors_def)
  done

subsection \<open>The fused projection\<close>

lemma col_nth: "j < nrows a \<Longrightarrow> col a i ! j = rows a ! j ! i"
  by (simp add: col_def nrows_def)

lemma length_col [simp]: "length (col a i) = nrows a"
  by (simp add: col_def nrows_def)

lemma map_nth_row:
  assumes "wf_arr a" and "j < nrows a"
  shows "map (\<lambda>i. rows a ! j ! i) [0..<ncols a] = rows a ! j"
  using map_nth [of "rows a ! j"] row_in_table [OF assms] by simp

lemma col_fused:
  assumes "wf_arr a" and "wf_arr b" and "wf_arr c"
    and "ncols a = m" and "ncols b = m" and "ncols c = m"
    and "nrows a = d" and "nrows b = d" and "nrows c = d"
  defines "W \<equiv> Arr (d + d + d) (map (\<lambda>i. col a i @ col b i @ col c i) [0..<m])"
  shows "j < d \<Longrightarrow> col W j = rows a ! j"
    and "j < d \<Longrightarrow> col W (d + j) = rows b ! j"
    and "j < d \<Longrightarrow> col W (d + d + j) = rows c ! j"
proof -
  assume j: "j < d"
  have "col W j = map (\<lambda>i. rows a ! j ! i) [0..<m]"
    using j assms(7) by (simp add: W_def col_def [of "Arr _ _"] nth_append col_nth)
  then show "col W j = rows a ! j"
    using map_nth_row [OF assms(1), of j] j assms(4,7) by simp
next
  assume j: "j < d"
  have "col W (d + j) = map (\<lambda>i. rows b ! j ! i) [0..<m]"
    using j assms(7,8) by (simp add: W_def col_def [of "Arr _ _"] nth_append col_nth)
  then show "col W (d + j) = rows b ! j"
    using map_nth_row [OF assms(2), of j] j assms(5,8) by simp
next
  assume j: "j < d"
  have "col W (d + d + j) = map (\<lambda>i. rows c ! j ! i) [0..<m]"
    using j assms(7,8,9) by (simp add: W_def col_def [of "Arr _ _"] nth_append col_nth)
  then show "col W (d + d + j) = rows c ! j"
    using map_nth_row [OF assms(3), of j] j assms(6,9) by simp
qed

lemma length_stored_linear_row [simp]: "length (stored_linear_row W b r) = nrows W"
  by (simp add: stored_linear_row_def)

lemma affine_fused:
  assumes "wf_arr a" and "wf_arr b" and "wf_arr c"
    and "ncols a = m" and "ncols b = m" and "ncols c = m"
    and "nrows a = d" and "nrows b = d" and "nrows c = d"
    and "length ba = d" and "length bb = d" and "length bc = d"
  shows "affine \<lparr>lin_w = Arr (d + d + d) (map (\<lambda>i. col a i @ col b i @ col c i) [0..<m]),
                 lin_b = ba @ bb @ bc\<rparr> r
           = stored_linear_row a ba r @ stored_linear_row b bb r @ stored_linear_row c bc r"
proof -
  let ?W = "Arr (d + d + d) (map (\<lambda>i. col a i @ col b i @ col c i) [0..<m])"
  let ?F = "\<lambda>j. dot r (col ?W j) + (ba @ bb @ bc) ! j"
  note cf = col_fused [OF assms(1-9)]
  have a1: "[0..<d + d + d] = [0..<d + d] @ [d + d..<d + d + d]"
    by (rule upt_add_eq_append) simp
  have a2: "[0..<d + d] = [0..<d] @ [d..<d + d]"
    by (rule upt_add_eq_append) simp
  have m1: "map (\<lambda>j. d + j) [0..<d] = [d..<d + d]"
    using map_add_upt [of d d] by (simp add: add.commute)
  have m2: "map (\<lambda>j. d + d + j) [0..<d] = [d + d..<d + d + d]"
    using map_add_upt [of "d + d" d] by (simp add: add.commute)
  have split: "[0..<d + d + d] = [0..<d] @ map (\<lambda>j. d + j) [0..<d] @ map (\<lambda>j. d + d + j) [0..<d]"
    by (simp only: a1 a2 m1 m2 append_assoc)
  have p1: "map ?F [0..<d] = stored_linear_row a ba r"
    using assms(7,10) by (simp add: stored_linear_row_def cf(1) nth_append cong: map_cong)
  have p2: "map (\<lambda>j. ?F (d + j)) [0..<d] = stored_linear_row b bb r"
    using assms(8,10,11) by (simp add: stored_linear_row_def cf(2) nth_append cong: map_cong)
  have p3: "map (\<lambda>j. ?F (d + d + j)) [0..<d] = stored_linear_row c bc r"
    using assms(9,10,11,12) by (simp add: stored_linear_row_def cf(3) nth_append cong: map_cong)
  have "affine \<lparr>lin_w = ?W, lin_b = ba @ bb @ bc\<rparr> r = map ?F [0..<d + d + d]"
    by (simp add: affine_def)
  also have "\<dots> = map ?F [0..<d] @ map (\<lambda>j. ?F (d + j)) [0..<d] @ map (\<lambda>j. ?F (d + d + j)) [0..<d]"
    unfolding split by (simp add: comp_def)
  finally show ?thesis
    by (simp only: p1 p2 p3)
qed

lemma chunks_of_three:
  assumes "length A = d" and "length B = d" and "length C = d"
  shows "chunk d 0 (A @ B @ C) = A" and "chunk d (Suc 0) (A @ B @ C) = B"
    and "chunk d 2 (A @ B @ C) = C"
  using assms by (simp_all add: chunk_def)

lemma fused_split:
  assumes "wf_arr a" and "wf_arr b" and "wf_arr c"
    and "ncols a = m" and "ncols b = m" and "ncols c = m"
    and "nrows a = d" and "nrows b = d" and "nrows c = d"
    and "length ba = d" and "length bb = d" and "length bc = d"
    and "ncols x = m"
  shows "and_then (linear_np x \<lparr>lin_w = Arr (d + d + d) (map (\<lambda>i. col a i @ col b i @ col c i) [0..<m]),
                               lin_b = ba @ bb @ bc\<rparr>) (\<lambda>y. np_split y 3)
           = Inr [Arr d (map (stored_linear_row a ba) (rows x)),
                  Arr d (map (stored_linear_row b bb) (rows x)),
                  Arr d (map (stored_linear_row c bc) (rows x))]"
proof -
  let ?P = "\<lparr>lin_w = Arr (d + d + d) (map (\<lambda>i. col a i @ col b i @ col c i) [0..<m]),
             lin_b = ba @ bb @ bc\<rparr>"
  let ?Y = "map (\<lambda>r. stored_linear_row a ba r @ stored_linear_row b bb r @ stored_linear_row c bc r) (rows x)"
  have "linear_np x ?P = Inr (Arr (d + d + d) (map (affine ?P) (rows x)))"
    using linear_rows [of x ?P] assms(10-13) by (simp add: nrows_def)
  then have y: "linear_np x ?P = Inr (Arr (d + d + d) ?Y)"
    by (simp add: affine_fused [OF assms(1-12)] cong: map_cong)
  have three: "(d + d + d) mod 3 = 0" "(d + d + d) div 3 = d"
    by presburger+
  have "np_split (Arr (d + d + d) ?Y) 3 = Inr (map (\<lambda>t. Arr d (map (chunk d t) ?Y)) [0..<3])"
    by (simp add: np_split_def three)
  also have "\<dots> = Inr [Arr d (map (stored_linear_row a ba) (rows x)),
                  Arr d (map (stored_linear_row b bb) (rows x)),
                  Arr d (map (stored_linear_row c bc) (rows x))]"
    using assms(7-9) by (simp add: upt_3 comp_def chunks_of_three)
  finally show ?thesis
    by (simp only: y and_then_Inr)
qed

lemma str_nat_digit: "n < 10 \<Longrightarrow> str_nat n = [char_of (48 + n)]"
  by (simp add: str_nat.simps)

lemma collect_nth:
  assumes "collect (map f [0..<n]) = Inr vs" and "i < n"
  shows "f i = Inr (vs ! i)"
proof -
  have eq: "map f [0..<n] = map Inr vs"
    using collect_outcome [of "map f [0..<n]"] assms(1) by simp
  then have "length vs = n"
    using length_map [of f "[0..<n]"] by simp
  then show ?thesis
    using arg_cong [OF eq, of "\<lambda>l. l ! i"] assms(2) by simp
qed

lemma load_block_c_attn:
  assumes "load_block model i = Inr blk"
    and "matrices model (layer_key i ''attention.self.query.weight'') = Some q_w"
    and "vectors model (layer_key i ''attention.self.query.bias'') = Some q_b"
    and "matrices model (layer_key i ''attention.self.key.weight'') = Some k_w"
    and "vectors model (layer_key i ''attention.self.key.bias'') = Some k_b"
    and "matrices model (layer_key i ''attention.self.value.weight'') = Some v_w"
    and "vectors model (layer_key i ''attention.self.value.bias'') = Some v_b"
  shows "ncols k_w = ncols q_w \<and> ncols v_w = ncols q_w
       \<and> attn_c_attn (attn blk)
           = \<lparr>lin_w = Arr (nrows q_w + nrows k_w + nrows v_w)
                        (map (\<lambda>j. col q_w j @ col k_w j @ col v_w j) [0..<ncols q_w]),
              lin_b = q_b @ k_b @ v_b\<rparr>"
  apply (insert assms)
  unfolding load_block_def
  apply (cases "ncols k_w = ncols q_w \<and> ncols v_w = ncols q_w"; simp add: hstack_transposes hstack1_def)
  apply (cases "matrices model (layer_key i ''attention.output.dense.weight'')"; simp)
  apply (cases "vectors model (layer_key i ''attention.output.dense.bias'')"; simp)
  apply (cases "vectors model (layer_key i ''attention.output.LayerNorm.weight'')"; simp)
  apply (cases "vectors model (layer_key i ''attention.output.LayerNorm.bias'')"; simp)
  apply (cases "matrices model (layer_key i ''intermediate.dense.weight'')"; simp)
  apply (cases "vectors model (layer_key i ''intermediate.dense.bias'')"; simp)
  apply (cases "matrices model (layer_key i ''output.dense.weight'')"; simp)
  apply (cases "vectors model (layer_key i ''output.dense.bias'')"; simp)
  apply (cases "vectors model (layer_key i ''output.LayerNorm.weight'')"; simp)
  apply (cases "vectors model (layer_key i ''output.LayerNorm.bias'')"; simp)
  apply auto
  done

lemma load_blocks_nth:
  assumes "load_encoder_hparams_and_params model = Inr (hp, ps)" and "i < n_layers"
  shows "load_block model i = Inr (blocks ps ! i)"
  apply (insert assms)
  unfolding load_encoder_hparams_and_params_def
  apply (cases "matrices model (prefix @ ''embeddings.word_embeddings.weight'')"; simp)
  apply (cases "matrices model (prefix @ ''embeddings.position_embeddings.weight'')"; simp)
  apply (cases "matrices model (prefix @ ''embeddings.token_type_embeddings.weight'')"; simp)
  apply (cases "vectors model (prefix @ ''embeddings.LayerNorm.weight'')"; simp)
  apply (cases "vectors model (prefix @ ''embeddings.LayerNorm.bias'')"; simp)
  apply (cases "collect (map (load_block model) [0..<n_layers])"; simp)
  apply (cases "matrices model ''pooler.dense.weight''"; simp)
  apply (cases "vectors model ''pooler.dense.bias''"; simp)
  apply (auto simp: collect_nth)
  done

lemma collect_first_Inl: "0 < n \<Longrightarrow> f 0 = Inl e \<Longrightarrow> collect (map f [0..<n]) = Inl e"
  by (simp add: upt_conv_Cons)

lemma load_block_misaligned: "load_block misaligned_dict 0 = Inl ValueError"
  by (simp add: load_block_def misaligned_dict_def hstack_transposes layer_key_def)

lemma qkv_aligned_uniform: "qkv_aligned uniform_dict"
  by (simp add: qkv_aligned_def qkv_aligned_at_def uniform_dict_def list_all_iff)

lemma qkv_aligned_qkv_dict: "qkv_aligned qkv_dict"
  by (simp add: qkv_aligned_def qkv_aligned_at_def qkv_dict_def n_layers_def upt_rec layer_key_def
      str_nat_digit)

lemma qkv_aligned_empty: "qkv_aligned empty_dict"
  by (simp add: qkv_aligned_def qkv_aligned_at_def empty_dict_def list_all_iff)

lemma mha_indivisible:
  assumes "ncols x = d" and "wf_attn p d" and "0 < n" and "d mod n \<noteq> 0"
  shows "mha x p n = Inl ValueError"
proof -
  define Y where "Y = map (affine (attn_c_attn p)) (rows x)"
  have shapes: "nrows (lin_w (attn_c_attn p)) = d" "ncols (lin_w (attn_c_attn p)) = 3 * d"
      "length (lin_b (attn_c_attn p)) = 3 * d"
    using assms(2) by (simp_all add: wf_attn_def wf_linear_def)
  have x1: "linear_np x (attn_c_attn p) = Inr (Arr (3 * d) Y)"
    using linear_rows [of x "attn_c_attn p"] assms(1) shapes by (simp add: Y_def)
  have qkv: "np_split (Arr (3 * d) Y) 3 = Inr (map (\<lambda>t. Arr d (map (chunk d t) Y)) [0..<3])"
    by (simp add: np_split_def)
  have "np_split (Arr d (map (chunk d t) Y)) n = Inl ValueError" for t
    using assms(3,4) by (simp add: np_split_def)
  then have heads: "split_heads (map (\<lambda>t. Arr d (map (chunk d t) Y)) [0..<3]) n = Inl ValueError"
    by (simp add: split_heads_def upt_3)
  show ?thesis
    by (simp only: mha_def x1 and_then_Inr qkv heads and_then_Inl)
qed

subsection \<open>Sums over indices and the finalizer\<close>

lemma sum_list_map_nth: "sum_list (map f xs) = (\<Sum>i<length xs. f (xs ! i))"
proof -
  have "sum_list (map f xs) = sum_list (map (\<lambda>i. f (xs ! i)) [0..<length xs])"
    by (simp add: map_upt_nth)
  also have "\<dots> = (\<Sum>i<length xs. f (xs ! i))"
    by (simp add: interv_sum_list_conv_sum_set_nat atLeast0LessThan)
  finally show ?thesis .
qed

lemma length_mean_pool [simp]: "length (mean_pool x) = ncols x"
  by (simp add: mean_pool_def)

lemma mean_pool_nth:
  "j < ncols x \<Longrightarrow> mean_pool x ! j = (\<Sum>i<nrows x. rows x ! i ! j) / real (nrows x)"
  by (simp add: mean_pool_def mean_def col_def sum_list_map_nth nrows_def)

lemma l2_norm_sum: "l2_norm v = sqrt (\<Sum>k<length v. (v ! k)\<^sup>2)"
  using sum_list_map_nth [of "\<lambda>a. a\<^sup>2" v] by (simp add: l2_norm_def)

lemma finalizer_unit:
  assumes "0 < nrows x" and "\<exists>v \<in> set (mean_pool x). v \<noteq> 0"
  shows "mean_pooling_and_normalization x
           = Inr (map Fin (map (\<lambda>v. v / l2_norm (mean_pool x)) (mean_pool x)))"
    and "l2_norm (map (\<lambda>v. v / l2_norm (mean_pool x)) (mean_pool x)) = 1"
proof -
  have nz: "l2_norm (mean_pool x) \<noteq> 0"
    using assms(2) by (simp add: l2_norm_eq_0)
  then have pos: "0 < l2_norm (mean_pool x)"
    using l2_norm_nonneg [of "mean_pool x"] by simp
  show "mean_pooling_and_normalization x
          = Inr (map Fin (map (\<lambda>v. v / l2_norm (mean_pool x)) (mean_pool x)))"
    using assms(1) nz by (simp add: mean_pooling_and_normalization_def np_divide_def Let_def)
  show "l2_norm (map (\<lambda>v. v / l2_norm (mean_pool x)) (mean_pool x)) = 1"
    using pos nz by (simp add: l2_norm_scale)
qed

lemma list_of_two: "length e = 2 \<Longrightarrow> e = [e ! 0, e ! 1]"
  by (cases e; cases "tl e") auto


subsection \<open>Multi-head attention, entry by entry\<close>

lemma dot_sum:
  assumes "length u = length v"
  shows "dot u v = (\<Sum>k<length u. u ! k * v ! k)"
proof -
  have "map2 (*) u v = map (\<lambda>k. u ! k * v ! k) [0..<length u]"
    using assms by (intro nth_equalityI) simp_all
  then show ?thesis
    by (simp add: dot_def interv_sum_list_conv_sum_set_nat atLeast0LessThan)
qed

lemma affine_nth:
  assumes "length r = nrows (lin_w p)" and "j < ncols (lin_w p)"
  shows "affine p r ! j = proj_entry p r j"
proof -
  have "dot r (col (lin_w p) j) = (\<Sum>k<length r. r ! k * rows (lin_w p) ! k ! j)"
    using assms(1) by (simp add: dot_sum col_nth)
  then show ?thesis
    using assms(2) by (simp add: affine_def proj_entry_def)
qed

lemma chunk_nth:
  assumes "Suc j * w \<le> length r" and "c < w"
  shows "chunk w j r ! c = r ! (j * w + c)"
  using assms by (simp add: chunk_def)

lemma chunk_chunk_nth:
  assumes "length y = 3 * d" and "t < 3" and "n dvd d" and "h < n" and "c < d div n"
  shows "chunk (d div n) h (chunk d t y) ! c = y ! (t * d + h * (d div n) + c)"
proof -
  have t: "Suc t * d \<le> length y"
    using assms(1,2) by simp
  have len: "length (chunk d t y) = d"
    using t by (rule length_chunk)
  have h: "Suc h * (d div n) \<le> length (chunk d t y)"
    unfolding len using assms(3,4) by (rule chunk_bound)
  have "h * (d div n) + c < d"
    using h assms(5) unfolding len by simp
  then show ?thesis
    using chunk_nth [OF h assms(5)] chunk_nth [OF t, of "h * (d div n) + c"]
    by (simp add: add.assoc)
qed

lemma concat_nth_uniform:
  assumes "\<forall>h < n. length (f h) = w" and "m < n * w"
  shows "concat (map f [0..<n]) ! m = f (m div w) ! (m mod w)"
  using assms
proof (induction n arbitrary: m)
  case 0
  then show ?case by simp
next
  case (Suc n)
  have len: "length (concat (map f [0..<n])) = n * w"
    using Suc.prems(1) by (induction n) simp_all
  have w: "0 < w"
    using Suc.prems(2) by (cases w) simp_all
  show ?case
  proof (cases "m < n * w")
    case True
    then show ?thesis
      using Suc.IH [of m] Suc.prems(1) by (simp add: nth_append len)
  next
    case False
    then have ge: "n * w \<le> m"
      by simp
    have "m div w = n"
      using ge Suc.prems(2) w
      by (metis div_nat_eqI mult.commute mult_Suc_right)
    moreover have "m mod w = m - n * w"
      using \<open>m div w = n\<close> by (metis minus_mult_div_eq_mod mult.commute)
    ultimately show ?thesis
      using False by (simp add: nth_append len)
  qed
qed


lemma head_part_nth:
  assumes "\<forall>r \<in> set X. length r = d"
    and "nrows (lin_w (attn_c_attn p)) = d" and "ncols (lin_w (attn_c_attn p)) = 3 * d"
    and "n dvd d" and "h < n" and "t < 3" and "i < length X" and "c < d div n"
  shows "head_part d n t h (map (affine (attn_c_attn p)) X) ! i ! c = qkv_entry d n p X t h i c"
proof -
  let ?y = "affine (attn_c_attn p) (X ! i)"
  have len: "length ?y = 3 * d"
    using assms(3) by (simp add: affine_def)
  have "Suc h * (d div n) \<le> d"
    using assms(4,5) by (rule chunk_bound)
  then have hc: "h * (d div n) + c < d"
    using assms(8) by simp
  have "t * d \<le> 2 * d"
    using assms(6) by simp
  then have bound: "t * d + h * (d div n) + c < ncols (lin_w (attn_c_attn p))"
    using hc unfolding assms(3) by linarith
  have "length (X ! i) = nrows (lin_w (attn_c_attn p))"
    using assms(1,2,7) by simp
  then have "?y ! (t * d + h * (d div n) + c) = qkv_entry d n p X t h i c"
    using bound by (simp add: affine_nth qkv_entry_def)
  then show ?thesis
    using assms(7) chunk_chunk_nth [OF len assms(6,4,5,8)] by (simp add: head_part_def)
qed

lemma length_head_part_row:
  assumes "ncols (lin_w (attn_c_attn p)) = 3 * d"
    and "n dvd d" and "h < n" and "t < 3" and "i < length X"
  shows "length (head_part d n t h (map (affine (attn_c_attn p)) X) ! i) = d div n"
proof -
  have len: "length (affine (attn_c_attn p) (X ! i)) = 3 * d"
    using assms(1) by (simp add: affine_def)
  show ?thesis
    using assms(5) length_chunk_chunk [OF len assms(4,2,3)] by (simp add: head_part_def)
qed

lemma attention_weights_nth:
  assumes "i < length Q" and "j < length K"
  shows "attention_weights Q K ! i ! j
           = exp (dot (Q ! i) (K ! j) / sqrt (real (length (Q ! i))))
             / (\<Sum>j'<length K. exp (dot (Q ! i) (K ! j') / sqrt (real (length (Q ! i)))))"
proof -
  let ?g = "\<lambda>k. dot (Q ! i) k / sqrt (real (length (Q ! i)))"
  have ne: "map ?g K \<noteq> []"
    using assms(2) by auto
  have "sum_list (map exp (map ?g K)) = (\<Sum>j'<length K. exp (?g (K ! j')))"
    using sum_list_map_nth [of "\<lambda>k. exp (?g k)" K] by (simp add: comp_def)
  then show ?thesis
    using assms by (simp add: attention_weights_def softmax_row_shift [OF ne])
qed

lemma head_weight_nth:
  assumes "\<forall>r \<in> set X. length r = d"
    and "nrows (lin_w (attn_c_attn p)) = d" and "ncols (lin_w (attn_c_attn p)) = 3 * d"
    and "n dvd d" and "h < n" and "i < length X" and "j < length X"
  shows "attention_weights (head_part d n 0 h (map (affine (attn_c_attn p)) X))
           (head_part d n (Suc 0) h (map (affine (attn_c_attn p)) X)) ! i ! j
         = attn_weight d n p X h i j"
proof -
  let ?Y = "map (affine (attn_c_attn p)) X"
  let ?Q = "head_part d n 0 h ?Y" and ?K = "head_part d n (Suc 0) h ?Y"
  have lq: "length (?Q ! i) = d div n" if "i < length X" for i
    using that by (intro length_head_part_row assms) simp
  have lk: "length (?K ! j) = d div n" if "j < length X" for j
    using that by (intro length_head_part_row assms) simp
  have score: "dot (?Q ! i) (?K ! j) / sqrt (real (length (?Q ! i))) = attn_score d n p X h i j"
    if "i < length X" and "j < length X" for i j
  proof -
    have "dot (?Q ! i) (?K ! j) = (\<Sum>c<d div n. ?Q ! i ! c * ?K ! j ! c)"
      using dot_sum [of "?Q ! i" "?K ! j"] lq [OF that(1)] lk [OF that(2)] by simp
    also have "\<dots> = (\<Sum>c<d div n. qkv_entry d n p X 0 h i c * qkv_entry d n p X 1 h j c)"
      using that assms(1-5) by (intro sum.cong refl) (simp add: head_part_nth)
    finally show ?thesis
      using that by (simp add: attn_score_def lq)
  qed
  have "attention_weights ?Q ?K ! i ! j
          = exp (dot (?Q ! i) (?K ! j) / sqrt (real (length (?Q ! i))))
            / (\<Sum>j'<length X. exp (dot (?Q ! i) (?K ! j') / sqrt (real (length (?Q ! i)))))"
    using attention_weights_nth [of i ?Q j ?K] assms(6,7) by simp
  also have "\<dots> = exp (attn_score d n p X h i j)
                   / (\<Sum>j'<length X. exp (attn_score d n p X h i j'))"
    using assms(6,7) by (simp add: score)
  finally show ?thesis
    by (simp add: attn_weight_def)
qed

lemma head_attend_nth:
  assumes "\<forall>r \<in> set X. length r = d"
    and "nrows (lin_w (attn_c_attn p)) = d" and "ncols (lin_w (attn_c_attn p)) = 3 * d"
    and "n dvd d" and "h < n" and "i < length X" and "c < d div n"
  shows "attend (d div n) (head_part d n 0 h (map (affine (attn_c_attn p)) X))
           (head_part d n (Suc 0) h (map (affine (attn_c_attn p)) X))
           (head_part d n 2 h (map (affine (attn_c_attn p)) X)) ! i ! c
         = head_out d n p X h i c"
proof -
  let ?Y = "map (affine (attn_c_attn p)) X"
  let ?Q = "head_part d n 0 h ?Y" and ?K = "head_part d n (Suc 0) h ?Y" and ?V = "head_part d n 2 h ?Y"
  let ?a = "attention_weights ?Q ?K ! i"
  have la: "length ?a = length X"
    using assms(6) by (simp add: attention_weights_def)
  have "attend (d div n) ?Q ?K ?V ! i ! c = dot ?a (map (\<lambda>v. v ! c) ?V)"
    using assms(6,7) by (simp add: attend_def attention_weights_def)
  also have "\<dots> = (\<Sum>j<length ?a. ?a ! j * map (\<lambda>v. v ! c) ?V ! j)"
    by (rule dot_sum) (simp add: la)
  also have "\<dots> = (\<Sum>j<length X. ?a ! j * ?V ! j ! c)"
    unfolding la by (intro sum.cong refl) simp
  also have "\<dots> = (\<Sum>j<length X. attn_weight d n p X h i j * qkv_entry d n p X 2 h j c)"
    using assms by (intro sum.cong refl) (simp add: head_weight_nth head_part_nth)
  finally show ?thesis
    by (simp add: head_out_def)
qed

lemma length_attend_row:
  "i < length Q \<Longrightarrow> length (attend w Q K V ! i) = w"
  by (simp add: attend_def attention_weights_def)

lemma mha_spec_formula:
  assumes "\<forall>r \<in> set X. length r = d" and "wf_attn p d" and "0 < n" and "n dvd d"
  shows "mha_spec d p n X = mha_formula d n p X"
proof -
  let ?w = "d div n"
  let ?Y = "map (affine (attn_c_attn p)) X"
  let ?head = "\<lambda>h. attend ?w (head_part d n 0 h ?Y) (head_part d n (Suc 0) h ?Y) (head_part d n 2 h ?Y)"
  let ?merged = "\<lambda>i. concat (map (\<lambda>h. ?head h ! i) [0..<n])"
  have A: "nrows (lin_w (attn_c_attn p)) = d" "ncols (lin_w (attn_c_attn p)) = 3 * d"
    and P: "nrows (lin_w (attn_c_proj p)) = d" "ncols (lin_w (attn_c_proj p)) = d"
    using assms(2) by (simp_all add: wf_attn_def wf_linear_def)
  have nw: "n * ?w = d"
    using assms(4) by simp
  have merged_nth: "?merged i ! m = head_out d n p X (m div ?w) i (m mod ?w)"
    if i: "i < length X" and m: "m < d" for i m
  proof -
    have w: "0 < ?w"
      using m nw by (cases "?w") simp_all
    have h: "m div ?w < n"
      using m nw w by (metis less_mult_imp_div_less)
    have "?merged i ! m = ?head (m div ?w) ! i ! (m mod ?w)"
      using i m nw by (intro concat_nth_uniform) (simp_all add: length_attend_row)
    also have "\<dots> = head_out d n p X (m div ?w) i (m mod ?w)"
      using assms(1) A assms(4) h i w by (intro head_attend_nth) simp_all
    finally show ?thesis .
  qed
  have merged_len: "length (?merged i) = d" if i: "i < length X" for i
  proof -
    have "length (concat (map f [0..<k])) = k * ?w" if "\<forall>h < k. length (f h) = ?w"
      for f :: "nat \<Rightarrow> real list" and k
      using that by (induction k) simp_all
    from this [of n "\<lambda>h. ?head h ! i"] show ?thesis
      using i nw by (simp add: length_attend_row)
  qed
  have row: "affine (attn_c_proj p) (?merged i) ! j
               = (\<Sum>m<d. head_out d n p X (m div ?w) i (m mod ?w)
                            * rows (lin_w (attn_c_proj p)) ! m ! j)
                 + lin_b (attn_c_proj p) ! j"
    if i: "i < length X" and j: "j < d" for i j
  proof -
    have "affine (attn_c_proj p) (?merged i) ! j = proj_entry (attn_c_proj p) (?merged i) j"
      using merged_len [OF i] P j by (intro affine_nth) simp_all
    also have "\<dots> = (\<Sum>m<d. ?merged i ! m * rows (lin_w (attn_c_proj p)) ! m ! j)
                     + lin_b (attn_c_proj p) ! j"
      by (simp only: proj_entry_def merged_len [OF i])
    also have "(\<Sum>m<d. ?merged i ! m * rows (lin_w (attn_c_proj p)) ! m ! j)
                 = (\<Sum>m<d. head_out d n p X (m div ?w) i (m mod ?w)
                              * rows (lin_w (attn_c_proj p)) ! m ! j)"
      using i by (intro sum.cong refl) (simp add: merged_nth)
    finally show ?thesis .
  qed
  have "mha_spec d p n X = map (\<lambda>i. affine (attn_c_proj p) (?merged i)) [0..<length X]"
    by (simp add: mha_spec_def Let_def comp_def)
  also have "\<dots> = mha_formula d n p X"
    unfolding mha_formula_def
  proof (intro map_cong refl nth_equalityI)
    fix i assume "i \<in> set [0..<length X]"
    then show "length (affine (attn_c_proj p) (?merged i))
                 = length (map (\<lambda>j. (\<Sum>m<d. head_out d n p X (m div ?w) i (m mod ?w)
                                              * rows (lin_w (attn_c_proj p)) ! m ! j)
                                     + lin_b (attn_c_proj p) ! j) [0..<d])"
      using P by (simp add: affine_def)
  next
    fix i j assume "i \<in> set [0..<length X]" and "j < length (affine (attn_c_proj p) (?merged i))"
    then show "affine (attn_c_proj p) (?merged i) ! j
                 = map (\<lambda>j. (\<Sum>m<d. head_out d n p X (m div ?w) i (m mod ?w)
                                      * rows (lin_w (attn_c_proj p)) ! m ! j)
                            + lin_b (attn_c_proj p) ! j) [0..<d] ! j"
      using P row by (simp add: affine_def)
  qed
  finally show ?thesis .
qed

lemma attn_weight_pos:
  assumes "j < length X"
  shows "0 < attn_weight d n p X h i j"
proof -
  have "0 < (\<Sum>j'<length X. exp (attn_score d n p X h i j'))"
    using assms by (intro sum_pos) auto
  then show ?thesis
    by (simp add: attn_weight_def)
qed

lemma attn_weight_sum:
  assumes "0 < length X"
  shows "(\<Sum>j<length X. attn_weight d n p X h i j) = 1"
proof -
  have "0 < (\<Sum>j'<length X. exp (attn_score d n p X h i j'))"
    using assms by (intro sum_pos) auto
  then show ?thesis
    by (simp add: attn_weight_def sum_divide_distrib [symmetric])
qed


lemma length_mha_formula [simp]: "length (mha_formula d n p X) = length X"
  by (simp add: mha_formula_def)

lemma lessThan_2: "{..<2::nat} = {0, 1}"
  by auto

lemma qkv_tiny:
  "qkv_entry 2 2 tiny_attn [[1, 1], [2, 1]] t h i c
     = proj_entry (attn_c_attn tiny_attn) ([[1, 1], [2, 1]] ! i) (t * 2 + h + c)"
  by (simp add: qkv_entry_def)

lemma proj_tiny:
  "proj_entry (attn_c_attn tiny_attn) [a, b] j
     = a * [1, 0, 0, 1, 1, 0] ! j + b * [0, 1, 1, 0, 0, 1] ! j + [0, 0, 0, 0, 0, 0] ! j"
  by (simp add: proj_entry_def tiny_attn_def lessThan_2)

lemma score_tiny:
  "attn_score 2 2 tiny_attn [[1, 1], [2, 1]] 0 0 0 = 1"
  "attn_score 2 2 tiny_attn [[1, 1], [2, 1]] 0 0 (Suc 0) = 1"
  "attn_score 2 2 tiny_attn [[1, 1], [2, 1]] 0 (Suc 0) 0 = 2"
  "attn_score 2 2 tiny_attn [[1, 1], [2, 1]] 0 (Suc 0) (Suc 0) = 2"
  "attn_score 2 2 tiny_attn [[1, 1], [2, 1]] (Suc 0) 0 0 = 1"
  "attn_score 2 2 tiny_attn [[1, 1], [2, 1]] (Suc 0) 0 (Suc 0) = 2"
  "attn_score 2 2 tiny_attn [[1, 1], [2, 1]] (Suc 0) (Suc 0) 0 = 1"
  "attn_score 2 2 tiny_attn [[1, 1], [2, 1]] (Suc 0) (Suc 0) (Suc 0) = 2"
  by (simp_all add: attn_score_def qkv_tiny proj_tiny)

lemma head_out_tiny:
  "head_out 2 2 tiny_attn [[1, 1], [2, 1]] 0 0 0 = 3 / 2"
  "head_out 2 2 tiny_attn [[1, 1], [2, 1]] 0 (Suc 0) 0 = 3 / 2"
  "head_out 2 2 tiny_attn [[1, 1], [2, 1]] (Suc 0) 0 0 = 1"
  "head_out 2 2 tiny_attn [[1, 1], [2, 1]] (Suc 0) (Suc 0) 0 = 1"
proof -
  have pos: "exp 1 + exp 2 \<noteq> (0::real)"
    using exp_gt_zero [of "1::real"] exp_gt_zero [of "2::real"] by linarith
  have one: "exp 1 / (exp 1 + exp 2) + exp 2 / (exp 1 + exp 2) = (1::real)"
    using pos by (simp add: add_divide_distrib [symmetric])
  show "head_out 2 2 tiny_attn [[1, 1], [2, 1]] 0 0 0 = 3 / 2"
    "head_out 2 2 tiny_attn [[1, 1], [2, 1]] 0 (Suc 0) 0 = 3 / 2"
    "head_out 2 2 tiny_attn [[1, 1], [2, 1]] (Suc 0) 0 0 = 1"
    "head_out 2 2 tiny_attn [[1, 1], [2, 1]] (Suc 0) (Suc 0) 0 = 1"
    by (simp_all add: head_out_def attn_weight_def lessThan_2 score_tiny qkv_tiny proj_tiny one)
qed

lemma mha_formula_tiny:
  "mha_formula 2 2 tiny_attn [[1, 1], [2, 1]] = [[3 / 2, 1], [3 / 2, 1]]"
proof -
  have upt2: "[0..<2] = [0, 1]"
    by (simp add: upt_rec)
  have proj: "rows (lin_w (attn_c_proj tiny_attn)) = [[1, 0], [0, 1]]"
    "lin_b (attn_c_proj tiny_attn) = [0, 0]"
    by (simp_all add: tiny_attn_def)
  show ?thesis
    by (simp add: mha_formula_def upt2 lessThan_2 proj head_out_tiny)
qed

section \<open>The claims\<close>

text \<open>
  C1. For a parameter tree with the shapes of the data model (hidden width \<open>d\<close>, a
  segment table of two rows), a valid token sequence (token and segment ids of the same
  length \<open>L > 0\<close>, at most the number of position rows, token ids below the vocabulary
  size, segment ids 0 or 1) and a positive head count that divides \<open>d\<close>, \<open>bert\<close>
  returns the array of shape \<open>(L, d)\<close> that the specification describes: the sum, at each
  position, of the token row, the position row and the segment row, then the input
  layer norm, then the blocks one after the other in the order of the list. The pooler
  is not applied: the result is the same for every pooler.
\<close>

theorem encoder_pipeline:
  assumes "wf_params p d" and "valid_tokens p token_ids segment_ids" and "0 < n" and "n dvd d"
  shows "bert token_ids segment_ids p n = Inr (Arr d (encoder_spec d n p token_ids segment_ids))
       \<and> length (encoder_spec d n p token_ids segment_ids) = length token_ids
       \<and> wf_arr (Arr d (encoder_spec d n p token_ids segment_ids))
       \<and> (\<forall>q. bert token_ids segment_ids (p\<lparr>pooler := q\<rparr>) n = bert token_ids segment_ids p n)"
proof (intro conjI allI)
  let ?X0 = "map (layer_norm_row (ln_0 p)) (embed_spec p token_ids segment_ids)"
  have "wf_arr (Arr d ?X0)" and "0 < length ?X0"
    using assms(1,2) by (auto simp: wf_arr_def embed_spec_def wf_params_def valid_tokens_def)
  then have shape: "wf_arr (Arr d (foldl (\<lambda>X b. block_spec d n b X) ?X0 (blocks p)))
       \<and> length (foldl (\<lambda>X b. block_spec d n b X) ?X0 (blocks p)) = length ?X0"
    using assms(1,3,4) by (intro foldl_blocks_shape) (simp_all add: wf_params_def)
  show "bert token_ids segment_ids p n = Inr (Arr d (encoder_spec d n p token_ids segment_ids))"
    using assms by (rule bert_rows)
  show "length (encoder_spec d n p token_ids segment_ids) = length token_ids"
    using shape by (simp add: encoder_spec_def embed_spec_def)
  show "wf_arr (Arr d (encoder_spec d n p token_ids segment_ids))"
    using shape by (simp add: encoder_spec_def)
  show "bert token_ids segment_ids (p\<lparr>pooler := q\<rparr>) n = bert token_ids segment_ids p n" for q
    by (simp add: bert_def)
qed

theorem encoder_pipeline_witness:
  "bert [2, 0] [0, 1] tiny_params 2 = Inr (Arr 2 (encoder_spec 2 2 tiny_params [2, 0] [0, 1]))
   \<and> embed_spec tiny_params [2, 0] [0, 1] = [[1, 1], [2, 1]]
   \<and> length (encoder_spec 2 2 tiny_params [2, 0] [0, 1]) = 2"
  using encoder_pipeline [OF wf_tiny_params valid_tiny_tokens, of 2]
  by (simp add: embed_tiny)

text \<open>
  C2. For \<open>x\<close> of shape \<open>(L, d)\<close> with \<open>L > 0\<close>, attention parameters of the shapes
  of the data model and a positive head count \<open>n\<close> that divides \<open>d\<close>, \<open>mha\<close> returns
  an array of the shape of \<open>x\<close>, given entry by entry by \<open>mha_formula\<close>: of the fused
  projection \<open>x @ W + b\<close> of a position, \<open>Q\<close>, \<open>K\<close>, \<open>V\<close> are the columns from \<open>0\<close>, \<open>d\<close>
  and \<open>2 * d\<close>, and head \<open>h\<close> reads the \<open>d div n\<close> columns from \<open>h * (d div n)\<close> of each;
  the weight of position \<open>j\<close> for position \<open>i\<close> is the exponential of the product
  of row \<open>i\<close> of \<open>Q\<close> and row \<open>j\<close> of \<open>K\<close> over \<open>sqrt (d div n)\<close>, divided by the sum
  of these exponentials over all \<open>L\<close> positions \<open>j\<close>; the head's output at \<open>i\<close> is the
  sum of the rows of \<open>V\<close> under these weights;
  the outputs of the heads, side by side in the order of the heads, go through the
  output projection. These are also the rows of \<open>mha_spec\<close>. No mask: for \<open>d > 0\<close>, in
  every head the weights of a position over all \<open>L\<close> positions are positive and sum
  to 1. (For \<open>d = 0\<close> the heads have no column, numpy's weights are \<open>nan\<close> and the result
  has no entry.)
\<close>

theorem mha_bidirectional:
  assumes "wf_arr x" and "ncols x = d" and "0 < nrows x" and "wf_attn p d" and "0 < n"
    and "n dvd d"
  shows "(\<exists>y. mha x p n = Inr y \<and> ncols y = ncols x \<and> nrows y = nrows x \<and> wf_arr y
            \<and> rows y = mha_formula d n p (rows x)
            \<and> rows y = mha_spec d p n (rows x))
       \<and> (0 < d \<longrightarrow>
            (\<forall>h < n. \<forall>i < nrows x.
                (\<forall>j < nrows x. 0 < attn_weight d n p (rows x) h i j)
              \<and> (\<Sum>j<nrows x. attn_weight d n p (rows x) h i j) = 1))"
proof (intro conjI allI impI)
  have X: "\<forall>r \<in> set (rows x). length r = d"
    using assms(1,2) by (simp add: wf_arr_def)
  have "wf_arr (Arr d (mha_spec d p n (rows x)))"
    using assms(4) by (auto simp: wf_arr_def wf_attn_def wf_linear_def dest: row_mha_spec)
  then show "\<exists>y. mha x p n = Inr y \<and> ncols y = ncols x \<and> nrows y = nrows x \<and> wf_arr y
            \<and> rows y = mha_formula d n p (rows x)
            \<and> rows y = mha_spec d p n (rows x)"
    using mha_rows [OF assms(2-6)] assms(2) mha_spec_formula [OF X assms(4-6), symmetric]
    by (simp add: nrows_def)
next
  fix h i j
  assume "j < nrows x"
  then show "0 < attn_weight d n p (rows x) h i j"
    by (intro attn_weight_pos) (simp add: nrows_def)
next
  fix h i
  show "(\<Sum>j<nrows x. attn_weight d n p (rows x) h i j) = 1"
    using assms(3) attn_weight_sum [of "rows x" d n p h i] by (simp add: nrows_def)
qed

theorem mha_bidirectional_witness:
  "mha tiny_x tiny_attn 2 = Inr (Arr 2 [[3 / 2, 1], [3 / 2, 1]])"
proof -
  have "wf_arr tiny_x" "ncols tiny_x = 2" "0 < nrows tiny_x" "wf_attn tiny_attn 2"
    by (simp_all add: tiny_x_def wf_arr_def tiny_attn_def wf_attn_def wf_linear_def)
  from mha_bidirectional [OF this, of 2] obtain y
    where "mha tiny_x tiny_attn 2 = Inr y" "ncols y = 2"
      "rows y = mha_formula 2 2 tiny_attn [[1, 1], [2, 1]]"
    by (auto simp: tiny_x_def)
  then show ?thesis
    by (cases y) (simp add: mha_formula_tiny)
qed

text \<open>
  C3. For \<open>x\<close> of shape \<open>(L, d)\<close> with \<open>L > 0\<close>, block parameters of the shapes of
  the data model and a positive head count that divides \<open>d\<close>, every stage of the block
  returns, and the block is \<open>layer_norm\<close> with the parameters \<open>ln_2\<close> of
  \<open>x1 + ffn x1\<close>, where \<open>x1\<close> is \<open>layer_norm\<close> with the parameters \<open>ln_1\<close> of
  \<open>x + mha x\<close>: each normalization comes after its residual addition. The result is a
  function of \<open>x\<close> and the parameters alone (\<open>block_spec\<close>), of the shape of \<open>x\<close>.
\<close>

theorem transformer_block_post_norm:
  assumes "wf_arr x" and "ncols x = d" and "0 < nrows x" and "wf_block p d" and "0 < n"
    and "n dvd d"
  shows "\<exists>a x1 f.
           mha x (attn p) n = Inr a
         \<and> layer_norm (Arr d (add_rows (rows x) (rows a))) (ln_1 p) = Inr x1
         \<and> ffn x1 (mlp p) = Inr f
         \<and> transformer_block x p n = layer_norm (Arr d (add_rows (rows x1) (rows f))) (ln_2 p)
         \<and> transformer_block x p n = Inr (Arr d (block_spec d n p (rows x)))
         \<and> length (block_spec d n p (rows x)) = nrows x
         \<and> wf_arr (Arr d (block_spec d n p (rows x)))"
proof -
  define M where "M = mha_spec d (attn p) n (rows x)"
  define S1 where "S1 = add_rows (rows x) M"
  define X1 where "X1 = map (layer_norm_row (ln_1 p)) S1"
  define F where "F = ffn_spec (mlp p) X1"
  define S2 where "S2 = add_rows X1 F"
  have parts: "wf_mlp (mlp p) d" "wf_attn (attn p) d" "wf_ln (ln_1 p) d" "wf_ln (ln_2 p) d"
    using assms(4) by (simp_all add: wf_block_def)
  have rowsx: "\<forall>r \<in> set (rows x). length r = d"
    using assms(1,2) by (simp add: wf_arr_def)
  have a: "mha x (attn p) n = Inr (Arr d M)"
    unfolding M_def using assms(2,3) parts(2) assms(5,6) by (rule mha_rows)
  have rowsM: "\<forall>r \<in> set M. length r = d"
    using parts(2) by (auto simp: M_def wf_attn_def wf_linear_def dest: row_mha_spec)
  have rowsS1: "\<forall>r \<in> set S1. length r = d"
    unfolding S1_def using rowsx rowsM by (blast intro: row_add_rows)
  have x1: "layer_norm (Arr d S1) (ln_1 p) = Inr (Arr d X1)"
    using layer_norm_rows [of "Arr d S1" "ln_1 p"] rowsS1 parts(3) by (simp add: wf_arr_def X1_def)
  have f: "ffn (Arr d X1) (mlp p) = Inr (Arr d F)"
    using ffn_rows [of "Arr d X1" d "mlp p"] parts(1) by (simp add: F_def)
  have rowsX1: "\<forall>r \<in> set X1. length r = d"
    using rowsS1 by (auto simp: X1_def)
  have rowsF: "\<forall>r \<in> set F. length r = d"
    using parts(1) by (auto simp: F_def wf_mlp_def wf_linear_def dest: row_ffn_spec)
  have rowsS2: "\<forall>r \<in> set S2. length r = d"
    unfolding S2_def using rowsX1 rowsF by (blast intro: row_add_rows)
  have out: "layer_norm (Arr d S2) (ln_2 p) = Inr (Arr d (map (layer_norm_row (ln_2 p)) S2))"
    using layer_norm_rows [of "Arr d S2" "ln_2 p"] rowsS2 parts(4) by (simp add: wf_arr_def)
  have spec: "block_spec d n p (rows x) = map (layer_norm_row (ln_2 p)) S2"
    by (simp add: block_spec_def Let_def S2_def F_def X1_def S1_def M_def)
  have whole: "transformer_block x p n = Inr (Arr d (block_spec d n p (rows x)))"
    and wf: "wf_arr (Arr d (block_spec d n p (rows x)))"
    using transformer_block_rows [OF assms] by simp_all
  have c2: "layer_norm (Arr d (add_rows (rows x) (rows (Arr d M)))) (ln_1 p) = Inr (Arr d X1)"
    using x1 by (simp add: S1_def)
  have c4: "transformer_block x p n
              = layer_norm (Arr d (add_rows (rows (Arr d X1)) (rows (Arr d F)))) (ln_2 p)"
    using whole out by (simp add: spec S2_def)
  have c6: "length (block_spec d n p (rows x)) = nrows x"
    by (simp add: nrows_def)
  from a c2 f c4 whole c6 wf show ?thesis
    by blast
qed

theorem transformer_block_post_norm_witness:
  "transformer_block tiny_x tiny_block 2 = Inr (Arr 2 (block_spec 2 2 tiny_block [[1, 1], [2, 1]]))"
proof -
  have "wf_arr tiny_x" "ncols tiny_x = 2" "0 < nrows tiny_x"
    by (simp_all add: tiny_x_def wf_arr_def)
  from transformer_block_post_norm [OF this wf_tiny_block, of 2] show ?thesis
    by (auto simp: tiny_x_def)
qed

text \<open>
  C4. Where the builder returns, the projection \<open>c_attn\<close> of block \<open>i\<close> has as row \<open>j\<close>
  of its weight column \<open>j\<close> of the stored query weight, then of the key weight, then of
  the value weight (the transposes side by side), and as bias the three biases one
  after the other. When the three stored layers have output width \<open>d\<close> and the input
  width of \<open>x\<close>, the fused pass on \<open>x\<close> split in three gives, in this order, what the
  stored query, key and value layers give on \<open>x\<close>.
\<close>

theorem fused_qkv_projection:
  assumes "load_encoder_hparams_and_params model = Inr (hp, ps)" and "i < n_layers"
    and "matrices model (layer_key i ''attention.self.query.weight'') = Some q_w"
    and "vectors model (layer_key i ''attention.self.query.bias'') = Some q_b"
    and "matrices model (layer_key i ''attention.self.key.weight'') = Some k_w"
    and "vectors model (layer_key i ''attention.self.key.bias'') = Some k_b"
    and "matrices model (layer_key i ''attention.self.value.weight'') = Some v_w"
    and "vectors model (layer_key i ''attention.self.value.bias'') = Some v_b"
    and "wf_arr q_w" and "wf_arr k_w" and "wf_arr v_w"
    and "nrows q_w = d" and "nrows k_w = d" and "nrows v_w = d"
    and "length q_b = d" and "length k_b = d" and "length v_b = d"
    and "ncols x = ncols q_w"
  shows "attn_c_attn (attn (blocks ps ! i))
           = \<lparr>lin_w = Arr (d + d + d) (map (\<lambda>j. col q_w j @ col k_w j @ col v_w j) [0..<ncols q_w]),
              lin_b = q_b @ k_b @ v_b\<rparr>
       \<and> and_then (linear_np x (attn_c_attn (attn (blocks ps ! i)))) (\<lambda>y. np_split y 3)
           = Inr [Arr d (map (stored_linear_row q_w q_b) (rows x)),
                  Arr d (map (stored_linear_row k_w k_b) (rows x)),
                  Arr d (map (stored_linear_row v_w v_b) (rows x))]"
proof -
  have blk: "load_block model i = Inr (blocks ps ! i)"
    using assms(1,2) by (rule load_blocks_nth)
  have c: "ncols k_w = ncols q_w" "ncols v_w = ncols q_w"
    and fused: "attn_c_attn (attn (blocks ps ! i))
           = \<lparr>lin_w = Arr (d + d + d) (map (\<lambda>j. col q_w j @ col k_w j @ col v_w j) [0..<ncols q_w]),
              lin_b = q_b @ k_b @ v_b\<rparr>"
    using load_block_c_attn [OF blk assms(3-8)] assms(12-14) by simp_all
  have "and_then (linear_np x \<lparr>lin_w = Arr (d + d + d) (map (\<lambda>j. col q_w j @ col k_w j @ col v_w j) [0..<ncols q_w]),
              lin_b = q_b @ k_b @ v_b\<rparr>) (\<lambda>y. np_split y 3)
           = Inr [Arr d (map (stored_linear_row q_w q_b) (rows x)),
                  Arr d (map (stored_linear_row k_w k_b) (rows x)),
                  Arr d (map (stored_linear_row v_w v_b) (rows x))]"
    using assms(9-11) refl c assms(12-18) by (rule fused_split)
  then show ?thesis
    by (simp only: fused simp_thms)
qed

theorem fused_qkv_projection_witness:
  "\<exists>hp ps. load_encoder_hparams_and_params qkv_dict = Inr (hp, ps)
     \<and> and_then (linear_np tiny_x (attn_c_attn (attn (blocks ps ! 0)))) (\<lambda>y. np_split y 3)
         = Inr [Arr 1 [[2], [3]], Arr 1 [[3], [3]], Arr 1 [[5], [6]]]"
proof -
  have "\<not> missing qkv_dict key" for key
    by (simp add: missing_def qkv_dict_def)
  then obtain hp ps where load: "load_encoder_hparams_and_params qkv_dict = Inr (hp, ps)"
    using load_outcome [OF qkv_aligned_qkv_dict]
    by (cases "load_encoder_hparams_and_params qkv_dict") auto
  have keys: "matrices qkv_dict (layer_key 0 ''attention.self.query.weight'') = Some (Arr 2 [[1, 0]])"
    "vectors qkv_dict (layer_key 0 ''attention.self.query.bias'') = Some [1]"
    "matrices qkv_dict (layer_key 0 ''attention.self.key.weight'') = Some (Arr 2 [[0, 1]])"
    "vectors qkv_dict (layer_key 0 ''attention.self.key.bias'') = Some [2]"
    "matrices qkv_dict (layer_key 0 ''attention.self.value.weight'') = Some (Arr 2 [[1, 1]])"
    "vectors qkv_dict (layer_key 0 ''attention.self.value.bias'') = Some [3]"
    by (simp_all add: qkv_dict_def layer_key_def)
  have "and_then (linear_np tiny_x (attn_c_attn (attn (blocks ps ! 0)))) (\<lambda>y. np_split y 3)
         = Inr [Arr 1 (map (stored_linear_row (Arr 2 [[1, 0]]) [1]) (rows tiny_x)),
                Arr 1 (map (stored_linear_row (Arr 2 [[0, 1]]) [2]) (rows tiny_x)),
                Arr 1 (map (stored_linear_row (Arr 2 [[1, 1]]) [3]) (rows tiny_x))]"
    by (rule fused_qkv_projection [OF load _ keys, where d = 1 and x = tiny_x, THEN conjunct2])
      (simp_all add: n_layers_def wf_arr_def tiny_x_def)
  then show ?thesis
    using load by (simp add: stored_linear_row_def dot_def tiny_x_def)
qed



text \<open>
  C6. For a matrix with at least one row and a column whose entries do not sum to
  zero, the pooled vector has in column \<open>j\<close> the sum of column \<open>j\<close> over the rows divided
  by the number of rows (the mean over the sequence axis), and the finalizer returns
  the pooled vector with every entry divided by the square root of the sum of the
  squares of its entries: every entry of the result is finite, and the square root of
  the sum of their squares is 1.
\<close>

theorem finalizer_unit_norm:
  assumes "0 < nrows x" and "\<exists>j < ncols x. (\<Sum>i<nrows x. rows x ! i ! j) \<noteq> 0"
  shows "\<exists>pooled e.
           length pooled = ncols x
         \<and> (\<forall>j < ncols x. pooled ! j = (\<Sum>i<nrows x. rows x ! i ! j) / real (nrows x))
         \<and> mean_pooling_and_normalization x = Inr (map Fin e)
         \<and> length e = ncols x
         \<and> (\<forall>j < ncols x. e ! j = pooled ! j / sqrt (\<Sum>k<ncols x. (pooled ! k)\<^sup>2))
         \<and> sqrt (\<Sum>j<ncols x. (e ! j)\<^sup>2) = 1"
proof -
  let ?p = "mean_pool x"
  let ?e = "map (\<lambda>v. v / l2_norm ?p) ?p"
  obtain j where j: "j < ncols x" "(\<Sum>i<nrows x. rows x ! i ! j) \<noteq> 0"
    using assms(2) by blast
  then have "?p ! j \<noteq> 0"
    using assms(1) by (simp add: mean_pool_nth)
  moreover have "?p ! j \<in> set ?p"
    using j(1) by simp
  ultimately have nonzero: "\<exists>v \<in> set ?p. v \<noteq> 0"
    by blast
  have c2: "\<forall>j < ncols x. ?p ! j = (\<Sum>i<nrows x. rows x ! i ! j) / real (nrows x)"
    by (simp add: mean_pool_nth)
  have c5: "\<forall>j < ncols x. ?e ! j = ?p ! j / sqrt (\<Sum>k<ncols x. (?p ! k)\<^sup>2)"
    using l2_norm_sum [of ?p] by simp
  have c6: "sqrt (\<Sum>j<ncols x. (?e ! j)\<^sup>2) = 1"
    using finalizer_unit(2) [OF assms(1) nonzero] l2_norm_sum [of ?e] by simp
  have "length ?p = ncols x \<and> (\<forall>j < ncols x. ?p ! j = (\<Sum>i<nrows x. rows x ! i ! j) / real (nrows x))
      \<and> mean_pooling_and_normalization x = Inr (map Fin ?e)
      \<and> length ?e = ncols x
      \<and> (\<forall>j < ncols x. ?e ! j = ?p ! j / sqrt (\<Sum>k<ncols x. (?p ! k)\<^sup>2))
      \<and> sqrt (\<Sum>j<ncols x. (?e ! j)\<^sup>2) = 1"
    using c2 c5 c6 finalizer_unit(1) [OF assms(1) nonzero] by simp
  then show ?thesis
    by blast
qed

theorem finalizer_unit_norm_witness:
  "mean_pooling_and_normalization two_tokens = Inr [Fin (3 / 5), Fin (4 / 5)]"
proof -
  have lt: "{..<2::nat} = {0, 1}"
    by auto
  have rows: "0 < nrows two_tokens" and cols: "ncols two_tokens = 2"
    by (simp_all add: two_tokens_def)
  have nonzero: "\<exists>j < ncols two_tokens. (\<Sum>i<nrows two_tokens. rows two_tokens ! i ! j) \<noteq> 0"
    by (rule exI [of _ 0]) (simp add: two_tokens_def lt)
  from finalizer_unit_norm [OF rows nonzero] obtain pooled e where
    p: "\<forall>j < 2. pooled ! j = (\<Sum>i<nrows two_tokens. rows two_tokens ! i ! j) / real (nrows two_tokens)"
    and r: "mean_pooling_and_normalization two_tokens = Inr (map Fin e)"
    and len: "length e = 2"
    and e: "\<forall>j < 2. e ! j = pooled ! j / sqrt (\<Sum>k<2. (pooled ! k)\<^sup>2)"
    unfolding cols by blast
  have "pooled ! 0 = (\<Sum>i<nrows two_tokens. rows two_tokens ! i ! 0) / real (nrows two_tokens)"
    using p by simp
  then have p0: "pooled ! 0 = 3"
    by (simp add: two_tokens_def lt)
  have "pooled ! 1 = (\<Sum>i<nrows two_tokens. rows two_tokens ! i ! 1) / real (nrows two_tokens)"
    using p by simp
  then have p1: "pooled ! Suc 0 = 4"
    by (simp add: two_tokens_def lt)
  have "sqrt (\<Sum>k<2. (pooled ! k)\<^sup>2) = sqrt 25"
    by (simp add: lt p0 p1)
  also have "\<dots> = 5"
    by (rule real_sqrt_unique) simp_all
  finally have s5: "sqrt (\<Sum>k<2. (pooled ! k)\<^sup>2) = 5" .
  have "e ! 0 = pooled ! 0 / sqrt (\<Sum>k<2. (pooled ! k)\<^sup>2)"
    and "e ! 1 = pooled ! 1 / sqrt (\<Sum>k<2. (pooled ! k)\<^sup>2)"
    using e by simp_all
  then have "e ! 0 = 3 / 5" and "e ! 1 = 4 / 5"
    unfolding s5 using p0 p1 by simp_all
  then have "[e ! 0, e ! 1] = [3 / 5, 4 / 5]"
    by (simp only:)
  then have "e = [3 / 5, 4 / 5]"
    using list_of_two [OF len] by (simp only:)
  then show ?thesis
    using r by simp
qed

text \<open>
  C7, as the claim states it, fails: on the matrix \<open>[[1, 0], [-1, 0]]\<close> the finalizer
  raises nothing.
\<close>

theorem finalizer_zero_raises_counterexample:
  "\<not> (\<exists>e. mean_pooling_and_normalization cancelling = Inl e)"
  by (simp add: mean_pooling_and_normalization_def cancelling_def Let_def)

text \<open>
  C7, amended. Mean-pooling \<open>[[1, 0], [-1, 0]]\<close> yields \<open>[0, 0]\<close>; and whenever the
  pooled vector of a matrix with at least one row is the zero vector, the finalizer
  raises no error and returns \<open>nan\<close> in every column.
\<close>

theorem finalizer_zero_nan:
  "mean_pool cancelling = [0, 0]
   \<and> (\<forall>x. 0 < nrows x \<and> (\<forall>v \<in> set (mean_pool x). v = 0)
          \<longrightarrow> mean_pooling_and_normalization x = Inr (replicate (ncols x) NaN))"
proof (intro conjI allI impI)
  show "mean_pool cancelling = [0, 0]"
    by (rule mean_pool_cancelling)
next
  fix x
  assume a: "0 < nrows x \<and> (\<forall>v \<in> set (mean_pool x). v = 0)"
  then have z: "l2_norm (mean_pool x) = 0"
    by (simp add: l2_norm_eq_0)
  have "map (\<lambda>v. np_divide v 0) (mean_pool x) = map (\<lambda>v. NaN) (mean_pool x)"
    using a by (simp add: np_divide_def)
  also have "\<dots> = replicate (length (mean_pool x)) NaN"
    by (simp add: map_replicate_const)
  finally show "mean_pooling_and_normalization x = Inr (replicate (ncols x) NaN)"
    using a z by (simp add: mean_pooling_and_normalization_def Let_def mean_pool_def)
qed

theorem finalizer_zero_nan_witness:
  "mean_pooling_and_normalization cancelling = Inr [NaN, NaN]"
proof -
  have "0 < nrows cancelling \<and> (\<forall>v \<in> set (mean_pool cancelling). v = 0)"
    by (simp add: mean_pool_cancelling) (simp add: cancelling_def)
  then have "mean_pooling_and_normalization cancelling = Inr (replicate (ncols cancelling) NaN)"
    using finalizer_zero_nan by blast
  then show ?thesis
    by (simp add: cancelling_def numeral_2_eq_2)
qed

text \<open>
  C8. For a positive head count \<open>n\<close> and \<open>Q\<close>, \<open>K\<close>, \<open>V\<close> of width \<open>d\<close>, the split
  across heads raises \<^verbatim>\<open>ValueError\<close> exactly when \<open>n\<close> does not divide \<open>d\<close>;
  when it does, the split returns, for each of the three, \<open>n\<close> chunks of \<open>d div n\<close>
  columns with the rows of the input, and the \<open>j\<close>-th chunk of a row is its entries
  \<open>j * (d div n)\<close> up to \<open>(j + 1) * (d div n)\<close>. This is the only
  \<^verbatim>\<open>ValueError\<close> of \<open>mha\<close> on an input of at least one row and width \<open>d\<close> with
  parameters of the shapes of the data model. (For \<open>n = 0\<close> Python raises
  \<^verbatim>\<open>ZeroDivisionError\<close>: \<open>np_split_zero\<close>.)
\<close>

theorem split_heads_divisible:
  assumes "0 < n" and "ncols q = d" and "ncols k = d" and "ncols v = d"
  shows "(split_heads [q, k, v] n = Inl ValueError \<longleftrightarrow> d mod n \<noteq> 0)
       \<and> (d mod n = 0 \<longrightarrow>
            (\<exists>qs ks vs. split_heads [q, k, v] n = Inr [qs, ks, vs]
               \<and> length qs = n \<and> length ks = n \<and> length vs = n
               \<and> (\<forall>j < n. qs ! j = Arr (d div n) (map (chunk (d div n) j) (rows q))
                          \<and> ks ! j = Arr (d div n) (map (chunk (d div n) j) (rows k))
                          \<and> vs ! j = Arr (d div n) (map (chunk (d div n) j) (rows v)))))
       \<and> (\<forall>x p. ncols x = d \<and> 0 < nrows x \<and> wf_attn p d \<longrightarrow>
             (mha x p n = Inl ValueError \<longleftrightarrow> d mod n \<noteq> 0))"
proof (intro conjI allI impI)
  show "split_heads [q, k, v] n = Inl ValueError \<longleftrightarrow> d mod n \<noteq> 0"
    using assms by (cases "d mod n = 0") (simp_all add: split_heads_def np_split_ok np_split_fails)
  show "\<exists>qs ks vs. split_heads [q, k, v] n = Inr [qs, ks, vs]
               \<and> length qs = n \<and> length ks = n \<and> length vs = n
               \<and> (\<forall>j < n. qs ! j = Arr (d div n) (map (chunk (d div n) j) (rows q))
                          \<and> ks ! j = Arr (d div n) (map (chunk (d div n) j) (rows k))
                          \<and> vs ! j = Arr (d div n) (map (chunk (d div n) j) (rows v)))"
    if "d mod n = 0"
    using that assms by (simp add: split_heads_def np_split_ok)
  show "mha x p n = Inl ValueError \<longleftrightarrow> d mod n \<noteq> 0"
    if h: "ncols x = d \<and> 0 < nrows x \<and> wf_attn p d" for x p
  proof (cases "d mod n = 0")
    case True
    then have "n dvd d"
      by (simp add: dvd_eq_mod_eq_0)
    then have "mha x p n = Inr (Arr d (mha_spec d p n (rows x)))"
      using h assms(1) by (intro mha_rows) simp_all
    then show ?thesis
      using True by simp
  next
    case False
    then show ?thesis
      using h assms(1) mha_indivisible [of x d p n] by simp
  qed
qed

theorem split_heads_divisible_witness:
  "split_heads [four_wide, four_wide, four_wide] 2
     = Inr [[Arr 2 [[1, 2]], Arr 2 [[3, 4]]],
            [Arr 2 [[1, 2]], Arr 2 [[3, 4]]],
            [Arr 2 [[1, 2]], Arr 2 [[3, 4]]]]
   \<and> mha tiny_x tiny_attn 3 = Inl ValueError"
proof -
  have w: "ncols four_wide = 4"
    by (simp add: four_wide_def)
  have "ncols tiny_x = 2 \<and> 0 < nrows tiny_x \<and> wf_attn tiny_attn 2"
    by (simp add: tiny_x_def tiny_attn_def wf_attn_def wf_linear_def wf_arr_def)
  then have "mha tiny_x tiny_attn 3 = Inl ValueError"
    using split_heads_divisible [of 3 tiny_x 2 tiny_x tiny_x] by (simp add: tiny_x_def)
  moreover have "split_heads [four_wide, four_wide, four_wide] 2
     = Inr [[Arr 2 [[1, 2]], Arr 2 [[3, 4]]],
            [Arr 2 [[1, 2]], Arr 2 [[3, 4]]],
            [Arr 2 [[1, 2]], Arr 2 [[3, 4]]]]"
    by (simp add: four_wide_def split_heads_def np_split_def chunk_def upt_rec)
  ultimately show ?thesis
    by simp
qed

text \<open>
  C9, as the claim states it, fails: a state dict can have every expected name and the
  builder still not return. Where the key weight of layer 0 has another number of
  columns than the query weight, \<^verbatim>\<open>np.hstack\<close> raises \<^verbatim>\<open>ValueError\<close>.
\<close>

theorem loader_all_present_counterexample:
  "(\<forall>key. \<not> missing misaligned_dict key)
   \<and> load_encoder_hparams_and_params misaligned_dict = Inl ValueError"
proof -
  have "collect (map (load_block misaligned_dict) [0..<n_layers]) = Inl ValueError"
    by (rule collect_first_Inl) (simp_all add: n_layers_def load_block_misaligned)
  then have "load_encoder_hparams_and_params misaligned_dict = Inl ValueError"
    by (simp add: load_encoder_hparams_and_params_def) (simp add: misaligned_dict_def)
  moreover have "\<not> missing misaligned_dict key" for key
    by (simp add: missing_def misaligned_dict_def)
  ultimately show ?thesis
    by simp
qed

text \<open>
  C9, amended. For a state dict in which the query, key and value weights of each layer
  have the same number of columns: when an expected name is absent, the builder raises
  \<^verbatim>\<open>KeyError\<close> with an expected name that is absent, and so does the script for
  any sentences, before it encodes one; when every expected name is present, the
  builder returns the hyperparameters \<open>n_head = 12\<close>, \<open>n_ctx = 1024\<close> and a parameter
  tree with six blocks, block \<open>i\<close> built from the tensors of layer \<open>i\<close>, the embedding
  tables and the input layer norm as stored, and the pooler weight transposed.
\<close>

theorem loader_outcome:
  assumes "qkv_aligned model"
  shows "((\<exists>key. missing model key) \<longrightarrow>
           (\<exists>key. load_encoder_hparams_and_params model = Inl (KeyError key)
              \<and> missing model key
              \<and> (\<forall>sentences. embed_sentences model sentences = Inl (KeyError key))))
       \<and> ((\<forall>key. \<not> missing model key) \<longrightarrow>
           (\<exists>ps. load_encoder_hparams_and_params model
                    = Inr (\<lparr>hp_n_head = 12, hp_n_ctx = 1024\<rparr>, ps)
              \<and> n_layers = 6 \<and> length (blocks ps) = 6
              \<and> (\<forall>i < 6. load_block model i = Inr (blocks ps ! i))
              \<and> matrices model (prefix @ ''embeddings.word_embeddings.weight'') = Some (wte ps)
              \<and> matrices model (prefix @ ''embeddings.position_embeddings.weight'') = Some (wpe ps)
              \<and> matrices model (prefix @ ''embeddings.token_type_embeddings.weight'') = Some (wtte ps)
              \<and> vectors model (prefix @ ''embeddings.LayerNorm.weight'') = Some (ln_g (ln_0 ps))
              \<and> vectors model (prefix @ ''embeddings.LayerNorm.bias'') = Some (ln_b (ln_0 ps))
              \<and> (\<exists>w. matrices model ''pooler.dense.weight'' = Some w
                     \<and> lin_w (pooler ps) = transpose_arr w)
              \<and> vectors model ''pooler.dense.bias'' = Some (lin_b (pooler ps))))"
proof (cases "load_encoder_hparams_and_params model")
  case (Inl e)
  then obtain key where key: "e = KeyError key" "missing model key"
    using load_outcome [OF assms] by auto
  have "embed_sentences model sentences = Inl (KeyError key)" for sentences
    using Inl key(1) by (simp add: embed_sentences_def)
  then show ?thesis
    using Inl key by auto
next
  case (Inr r)
  obtain hp ps where r: "r = (hp, ps)"
    by (cases r)
  show ?thesis
    using load_outcome [OF assms] Inr unfolding r by (simp add: n_layers_def)
qed

theorem loader_outcome_witness:
  "(\<exists>ps. load_encoder_hparams_and_params uniform_dict
            = Inr (\<lparr>hp_n_head = 12, hp_n_ctx = 1024\<rparr>, ps) \<and> length (blocks ps) = 6)
   \<and> load_encoder_hparams_and_params empty_dict
        = Inl (KeyError ''embeddings.word_embeddings.weight'')
   \<and> embed_sentences empty_dict [[0]] = Inl (KeyError ''embeddings.word_embeddings.weight'')"
proof -
  have "\<forall>key. \<not> missing uniform_dict key"
    by (simp add: missing_def uniform_dict_def)
  then have "\<exists>ps. load_encoder_hparams_and_params uniform_dict
            = Inr (\<lparr>hp_n_head = 12, hp_n_ctx = 1024\<rparr>, ps) \<and> length (blocks ps) = 6"
    using loader_outcome [OF qkv_aligned_uniform] by blast
  moreover have "load_encoder_hparams_and_params empty_dict
        = Inl (KeyError ''embeddings.word_embeddings.weight'')"
    by (simp add: load_encoder_hparams_and_params_def empty_dict_def prefix_def)
  moreover have "\<exists>key. missing empty_dict key"
    by (rule exI [of _ "''pooler.dense.weight''"])
      (simp add: missing_def expected_matrices_def empty_dict_def)
  then have "embed_sentences empty_dict [[0]] = Inl (KeyError ''embeddings.word_embeddings.weight'')"
    using loader_outcome [OF qkv_aligned_empty] calculation(2) by auto
  ultimately show ?thesis
    by simp
qed

text \<open>
  C10, as the claim states it, fails: the negative segment id \<open>-3\<close> raises
  \<^verbatim>\<open>IndexError\<close> on the segment table of two rows.
\<close>

theorem negative_id_raises_counterexample:
  "bert [0] [-3] tiny_params 2 = Inl IndexError"
  by (simp add: bert_def take_rows_def select_rows_def index_array_def fits_int64_def
      in_bounds_def norm_index_def tiny_params_def broadcast2_def bc_dim_def stretch_def)

text \<open>
  C10, amended. The program has no check of its own on the ids; numpy's indexing
  decides. For ids that fit a signed 64-bit integer, an id \<open>i\<close> of a table of \<open>n\<close> rows
  raises \<^verbatim>\<open>IndexError\<close> exactly when \<open>i < -n\<close> or \<open>n \<le> i\<close>. A negative id with
  \<open>-n \<le> i\<close> raises nothing and selects row \<open>n + i\<close>: the encoder returns on such ids
  what it returns on the ids counted from the start. Among ids that fit a signed 64-bit
  integer, a token id out of these bounds makes the encoder raise \<^verbatim>\<open>IndexError\<close>, a
  segment id out of them makes it raise.
\<close>

theorem ids_wrap_within_bounds:
  "((\<forall>i \<in> set ids. - (2 ^ 63) \<le> i \<and> i < 2 ^ 63) \<longrightarrow>
      (take_rows t ids = Inl IndexError
         \<longleftrightarrow> (\<exists>i \<in> set ids. i < - int (nrows t) \<or> int (nrows t) \<le> i)))
   \<and> ((\<forall>i \<in> set ids. - int (nrows t) \<le> i \<and> i < int (nrows t)) \<longrightarrow>
         take_rows t ids
           = Inr (Arr (ncols t) (map (\<lambda>i. rows t ! nat (if i < 0 then i + int (nrows t) else i)) ids)))
   \<and> ((\<forall>i \<in> set token_ids. - int (nrows (wte p)) \<le> i \<and> i < int (nrows (wte p)))
        \<and> (\<forall>i \<in> set segment_ids. - int (nrows (wtte p)) \<le> i \<and> i < int (nrows (wtte p))) \<longrightarrow>
         bert token_ids segment_ids p n
           = bert (map (\<lambda>i. if i < 0 then i + int (nrows (wte p)) else i) token_ids)
                  (map (\<lambda>i. if i < 0 then i + int (nrows (wtte p)) else i) segment_ids) p n)
   \<and> ((\<forall>i \<in> set token_ids. - (2 ^ 63) \<le> i \<and> i < 2 ^ 63)
        \<and> (\<exists>i \<in> set token_ids. i < - int (nrows (wte p)) \<or> int (nrows (wte p)) \<le> i) \<longrightarrow>
         bert token_ids segment_ids p n = Inl IndexError)
   \<and> ((\<forall>i \<in> set segment_ids. - (2 ^ 63) \<le> i \<and> i < 2 ^ 63)
        \<and> (\<exists>i \<in> set segment_ids. i < - int (nrows (wtte p)) \<or> int (nrows (wtte p)) \<le> i) \<longrightarrow>
         (\<exists>e. bert token_ids segment_ids p n = Inl e))"
proof (intro conjI impI)
  have iff: "list_all (in_bounds k) xs \<longleftrightarrow> \<not> (\<exists>i \<in> set xs. i < - int k \<or> int k \<le> i)" for k xs
    by (auto simp: list_all_iff in_bounds_def)
  have fits: "list_all fits_int64 xs \<longleftrightarrow> (\<forall>i \<in> set xs. - (2 ^ 63) \<le> i \<and> i < 2 ^ 63)" for xs
    by (simp add: list_all_iff fits_int64_def)
  show "take_rows t ids = Inl IndexError \<longleftrightarrow> (\<exists>i \<in> set ids. i < - int (nrows t) \<or> int (nrows t) \<le> i)"
    if f: "\<forall>i \<in> set ids. - (2 ^ 63) \<le> i \<and> i < 2 ^ 63"
  proof (cases "list_all (in_bounds (nrows t)) ids")
    case True
    then show ?thesis
      using iff [of "nrows t" ids] by (simp add: take_rows_ok)
  next
    case False
    then show ?thesis
      using iff [of "nrows t" ids] f take_rows_fail [of ids t] by (simp add: fits)
  qed
  show "take_rows t ids
          = Inr (Arr (ncols t) (map (\<lambda>i. rows t ! nat (if i < 0 then i + int (nrows t) else i)) ids))"
    if "\<forall>i \<in> set ids. - int (nrows t) \<le> i \<and> i < int (nrows t)"
    using that by (simp add: take_rows_def select_rows_def list_all_iff in_bounds_def norm_index_def)
  show "bert token_ids segment_ids p n
          = bert (map (\<lambda>i. if i < 0 then i + int (nrows (wte p)) else i) token_ids)
                 (map (\<lambda>i. if i < 0 then i + int (nrows (wtte p)) else i) segment_ids) p n"
    if b: "(\<forall>i \<in> set token_ids. - int (nrows (wte p)) \<le> i \<and> i < int (nrows (wte p)))
        \<and> (\<forall>i \<in> set segment_ids. - int (nrows (wtte p)) \<le> i \<and> i < int (nrows (wtte p)))"
  proof -
    have tb: "list_all (in_bounds (nrows (wte p))) token_ids"
      and sb: "list_all (in_bounds (nrows (wtte p))) segment_ids"
      using b by (simp_all add: list_all_iff in_bounds_def)
    have eq: "map (\<lambda>i. if i < 0 then i + int k else i) xs = map (\<lambda>i. int (norm_index k i)) xs"
      if "list_all (in_bounds k) xs" for k xs
      using that by (auto simp: list_all_iff in_bounds_def norm_index_def)
    show ?thesis
      unfolding eq [OF tb] eq [OF sb] by (rule bert_normalised [OF tb sb, symmetric])
  qed
  show "bert token_ids segment_ids p n = Inl IndexError"
    if "(\<forall>i \<in> set token_ids. - (2 ^ 63) \<le> i \<and> i < 2 ^ 63)
        \<and> (\<exists>i \<in> set token_ids. i < - int (nrows (wte p)) \<or> int (nrows (wte p)) \<le> i)"
    using that iff [of "nrows (wte p)" token_ids]
    by (intro bert_token_out_of_bounds) (simp_all add: fits)
  show "\<exists>e. bert token_ids segment_ids p n = Inl e"
    if "(\<forall>i \<in> set segment_ids. - (2 ^ 63) \<le> i \<and> i < 2 ^ 63)
        \<and> (\<exists>i \<in> set segment_ids. i < - int (nrows (wtte p)) \<or> int (nrows (wtte p)) \<le> i)"
    using that iff [of "nrows (wtte p)" segment_ids]
    by (intro bert_segment_out_of_bounds) (simp_all add: fits)
qed

theorem ids_wrap_within_bounds_witness:
  "take_rows (wtte tiny_params) [-1] = Inr (Arr 2 [[0, 1]])
   \<and> bert [0] [-1] tiny_params 2 = bert [0] [1] tiny_params 2
   \<and> take_rows (wtte tiny_params) [2] = Inl IndexError"
  using ids_wrap_within_bounds [of "[-1]" "wtte tiny_params" "[0]" tiny_params "[-1]" 2]
    ids_wrap_within_bounds [of "[2]" "wtte tiny_params", THEN conjunct1]
  by (simp add: tiny_params_def)

end
